theory Spec2Isabelle
  imports Complex_Main "HOL-Library.Sublist" "HOL-Library.Log_Nat"
begin

section \<open>Python values, exceptions and formatting\<close>

text \<open>
  A product document, a marketplace response body and a generated package are what
  \<^verbatim>\<open>json.load\<close> and \<^verbatim>\<open>response.json()\<close> return: \<^verbatim>\<open>None\<close>, a \<^verbatim>\<open>bool\<close>, an \<^verbatim>\<open>int\<close>, a
  \<^verbatim>\<open>str\<close>, a \<^verbatim>\<open>list\<close> or a \<^verbatim>\<open>dict\<close> with string keys. A dict is an association list in
  insertion order with distinct keys. Numbers with a fraction or an exponent (Python
  floats) are outside the model, and strings are ASCII.
\<close>

datatype json =
    JNull
  | JBool bool
  | JInt int
  | JStr string
  | JList "json list"
  | JObj "(string \<times> json) list"

text \<open>
  Exceptions are values: the class and the message \<^verbatim>\<open>str(e)\<close>. Only subclasses of
  \<^verbatim>\<open>Exception\<close> are modelled, so every \<^verbatim>\<open>except Exception\<close> of the source catches every
  \<open>exn\<close>; an interruption of the process is outside the model. The message texts of the
  interpreter's own errors are abbreviated.
\<close>

datatype exn_class =
  AttributeError | TypeError | KeyError | ValueError | NameError | OSError | RequestException
  | OverflowError | ZeroDivisionError

datatype exn = Raised exn_class string

definition exn_str :: "exn \<Rightarrow> string" where
  "exn_str e = (case e of Raised c m \<Rightarrow> m)"

text \<open>\<^verbatim>\<open>d.get(k, default)\<close> on a dict; \<^verbatim>\<open>d.get(k)\<close> is \<^verbatim>\<open>d.get(k, None)\<close>.\<close>

definition dget :: "(string \<times> json) list \<Rightarrow> string \<Rightarrow> json \<Rightarrow> json" where
  "dget d k dflt = (case map_of d k of Some v \<Rightarrow> v | None \<Rightarrow> dflt)"

text \<open>The truth value of \<^verbatim>\<open>if v:\<close>.\<close>

fun truthy :: "json \<Rightarrow> bool" where
  "truthy JNull = False"
| "truthy (JBool b) = b"
| "truthy (JInt n) = (n \<noteq> 0)"
| "truthy (JStr s) = (s \<noteq> [])"
| "truthy (JList xs) = (xs \<noteq> [])"
| "truthy (JObj kvs) = (kvs \<noteq> [])"

text \<open>
  \<^verbatim>\<open>v * n\<close> for a non-negative int \<open>n\<close>: arithmetic on an int or a bool, repetition of a
  str or a list, \<^verbatim>\<open>TypeError\<close> on \<^verbatim>\<open>None\<close> and on a dict.
\<close>

fun py_mul :: "json \<Rightarrow> nat \<Rightarrow> exn + json" where
  "py_mul (JInt i) n = Inr (JInt (i * int n))"
| "py_mul (JBool b) n = Inr (JInt ((if b then 1 else 0) * int n))"
| "py_mul (JStr s) n = Inr (JStr (concat (replicate n s)))"
| "py_mul (JList xs) n = Inr (JList (concat (replicate n xs)))"
| "py_mul JNull n = Inl (Raised TypeError ''unsupported operand type(s) for *'')"
| "py_mul (JObj kvs) n = Inl (Raised TypeError ''unsupported operand type(s) for *'')"

text \<open>\<^verbatim>\<open>len(v)\<close>.\<close>

fun py_len :: "json \<Rightarrow> exn + nat" where
  "py_len (JStr s) = Inr (length s)"
| "py_len (JList xs) = Inr (length xs)"
| "py_len (JObj kvs) = Inr (length kvs)"
| "py_len v = Inl (Raised TypeError ''object has no len()'')"

text \<open>Decimal notation, \<^verbatim>\<open>str(n)\<close> of an int.\<close>

definition digit_char :: "nat \<Rightarrow> char" where
  "digit_char n = ''0123456789'' ! (n mod 10)"

function show_nat :: "nat \<Rightarrow> string" where
  "show_nat n = (if n < 10 then [digit_char n] else show_nat (n div 10) @ [digit_char n])"
  by pat_completeness auto
termination
  by (relation "measure id") auto

declare show_nat.simps [simp del]

definition show_int :: "int \<Rightarrow> string" where
  "show_int i = (if i < 0 then CHR ''-'' # show_nat (nat (- i)) else show_nat (nat i))"

text \<open>
  \<^verbatim>\<open>repr(s)\<close> of a str: single quotes unless the text holds a single quote and no double
  quote; the quote and the backslash are escaped, the control characters are written as
  escapes.
\<close>

definition hex_char :: "nat \<Rightarrow> char" where
  "hex_char n = ''0123456789abcdef'' ! (n mod 16)"

definition repr_char :: "char \<Rightarrow> char \<Rightarrow> string" where
  "repr_char q c =
     (if c = q \<or> c = CHR 0x5C then [CHR 0x5C, c]
      else if c = CHR 0x0A then [CHR 0x5C, CHR ''n'']
      else if c = CHR 0x0D then [CHR 0x5C, CHR ''r'']
      else if c = CHR 0x09 then [CHR 0x5C, CHR ''t'']
      else if of_char c < (32::nat) \<or> of_char c = (127::nat) then
        [CHR 0x5C, CHR ''x'', hex_char (of_char c div 16), hex_char (of_char c)]
      else [c])"

definition repr_str :: "string \<Rightarrow> string" where
  "repr_str s =
     (let q = (if CHR 0x27 \<in> set s \<and> CHR 0x22 \<notin> set s then CHR 0x22 else CHR 0x27)
      in q # concat (map (repr_char q) s) @ [q])"

definition join :: "string \<Rightarrow> string list \<Rightarrow> string" where
  "join sep xs = (case xs of [] \<Rightarrow> [] | y # ys \<Rightarrow> y @ concat (map (\<lambda>z. sep @ z) ys))"

fun py_repr :: "json \<Rightarrow> string" where
  "py_repr JNull = ''None''"
| "py_repr (JBool b) = (if b then ''True'' else ''False'')"
| "py_repr (JInt i) = show_int i"
| "py_repr (JStr s) = repr_str s"
| "py_repr (JList xs) = ''['' @ join '', '' (map py_repr xs) @ '']''"
| "py_repr (JObj kvs) =
     ''{'' @ join '', '' (map (\<lambda>kv. repr_str (fst kv) @ '': '' @ py_repr (snd kv)) kvs) @ ''}''"

text \<open>\<^verbatim>\<open>str(v)\<close>, which is what an f-string writes for \<^verbatim>\<open>{v}\<close>.\<close>

definition py_str :: "json \<Rightarrow> string" where
  "py_str v = (case v of JStr s \<Rightarrow> s | _ \<Rightarrow> py_repr v)"

section \<open>Pricing Optimizer: the two-rule heuristic\<close>

text \<open>
  Source: \<^verbatim>\<open>AutoLauncher._optimize_product_prices\<close> in
  \<^verbatim>\<open>src/automation/auto_launcher.py\<close>, lines 181-197, the body run for one listing that is
  marked \<^verbatim>\<open>auto_generated\<close> and has analytics:
  \<^verbatim>\<open>
  if views > 100 and purchases < 5:
      new_price = int(current_price * 0.8)
      self.whop.update_product_pricing(product['id'], new_price)
  elif views > 50 and purchases > 10:
      conversion_rate = purchases / views
      if conversion_rate > 0.1:
          new_price = int(current_price * 1.2)
          self.whop.update_product_pricing(product['id'], new_price)
  \<close>
  The three analytics values are Python ints, which are unbounded: \<open>int\<close>. The products and
  the quotient are Python floats, which are binary64 numbers.
\<close>

subsection \<open>Binary64 arithmetic\<close>

text \<open>
  A finite float is a rational number. \<open>ilog2 x\<close> is the exponent of a positive \<open>x\<close>, the
  integer \<open>e\<close> with \<open>2 ^ e \<le> x < 2 ^ (e + 1)\<close> (lemma \<open>ilog2_bounds\<close>).
\<close>

definition ilog2 :: "rat \<Rightarrow> int" where
  "ilog2 x = (if 1 \<le> x then bitlen \<lfloor>x\<rfloor> - 1 else - bitlen (\<lceil>1 / x\<rceil> - 1))"

text \<open>The nearest integer, the even one of the two when \<open>x\<close> lies halfway.\<close>

definition round_even :: "rat \<Rightarrow> int" where
  "round_even x =
     (let n = \<lfloor>x\<rfloor>; d = x - of_int n in
      if d < 1 / 2 then n else if 1 / 2 < d then n + 1 else if even n then n else n + 1)"

text \<open>
  Rounding to the nearest binary64 number, ties to even: a significand of 53 bits, the
  spacing \<open>2 ^ (e - 52)\<close> in the binade of \<open>x\<close> and \<open>2 ^ - 1074\<close> in the subnormal range. The
  result is \<open>None\<close> when the rounded magnitude is \<open>2 ^ 1024\<close> or more, beyond the largest
  finite float.
\<close>

definition round_binary64 :: "rat \<Rightarrow> rat option" where
  "round_binary64 x =
     (if x = 0 then Some 0
      else
        (let q = max (ilog2 \<bar>x\<bar> - 52) (- 1074);
             y = of_int (round_even (x / 2 powi q)) * 2 powi q
         in if 2 ^ 1024 \<le> \<bar>y\<bar> then None else Some y))"

text \<open>The value of a decimal literal of the source, such as \<^verbatim>\<open>0.8\<close>.\<close>

definition float_literal :: "rat \<Rightarrow> rat" where
  "float_literal x = (case round_binary64 x of Some y \<Rightarrow> y | None \<Rightarrow> 0)"

text \<open>\<^verbatim>\<open>int(x)\<close> of a finite float truncates towards zero.\<close>

definition py_int :: "rat \<Rightarrow> int" where
  "py_int x = (if 0 \<le> x then \<lfloor>x\<rfloor> else \<lceil>x\<rceil>)"

text \<open>
  \<^verbatim>\<open>int(current_price * factor)\<close> for an int \<^verbatim>\<open>current_price\<close> and a float \<^verbatim>\<open>factor\<close>: the int
  is converted to a float, which raises \<^verbatim>\<open>OverflowError\<close> when it is too large; the
  product of the two floats is rounded, and is infinite when it is too large, of which
  \<^verbatim>\<open>int\<close> raises \<^verbatim>\<open>OverflowError\<close>.
\<close>

definition scaled_price :: "int \<Rightarrow> rat \<Rightarrow> exn + int" where
  "scaled_price current_price factor =
     (case round_binary64 (of_int current_price) of
        None \<Rightarrow> Inl (Raised OverflowError ''int too large to convert to float'')
      | Some f \<Rightarrow>
          (case round_binary64 (f * factor) of
             None \<Rightarrow> Inl (Raised OverflowError ''cannot convert float infinity to integer'')
           | Some g \<Rightarrow> Inr (py_int g)))"

text \<open>
  \<^verbatim>\<open>a / b\<close> for two ints: the quotient of the two integers, rounded once;
  \<^verbatim>\<open>OverflowError\<close> when it is too large for a float.
\<close>

definition true_div :: "int \<Rightarrow> int \<Rightarrow> exn + rat" where
  "true_div a b =
     (if b = 0 then Inl (Raised ZeroDivisionError ''division by zero'')
      else
        (case round_binary64 (of_int a / of_int b) of
           None \<Rightarrow> Inl (Raised OverflowError ''integer division result too large for a float'')
         | Some r \<Rightarrow> Inr r))"

subsection \<open>The rule\<close>

text \<open>
  What the optimizer does with one listing: a call of \<^verbatim>\<open>update_product_pricing\<close> with the
  reduced price, one with the increased price, or no call at all; or an exception, which
  leaves the loop for the handler of \<^verbatim>\<open>_optimize_product_prices\<close>.
\<close>

datatype price_action = Reduce int | Increase int | NoChange

definition optimize_price :: "int \<Rightarrow> int \<Rightarrow> int \<Rightarrow> exn + price_action" where
  "optimize_price views purchases current_price =
     (if views > 100 \<and> purchases < 5 then
        (case scaled_price current_price (float_literal (8 / 10)) of
           Inl e \<Rightarrow> Inl e
         | Inr new_price \<Rightarrow> Inr (Reduce new_price))
      else if views > 50 \<and> purchases > 10 then
        (case true_div purchases views of
           Inl e \<Rightarrow> Inl e
         | Inr conversion_rate \<Rightarrow>
             if conversion_rate > float_literal (1 / 10) then
               (case scaled_price current_price (float_literal (12 / 10)) of
                  Inl e \<Rightarrow> Inl e
                | Inr new_price \<Rightarrow> Inr (Increase new_price))
             else Inr NoChange)
      else Inr NoChange)"

text \<open>
  The rule in the specification's words (section 4.3): first match wins, the new price is
  the floor of the scaled price, taken over the reals.
\<close>

definition price_rule_spec :: "int \<Rightarrow> int \<Rightarrow> int \<Rightarrow> price_action" where
  "price_rule_spec views purchases p =
     (if views > 100 \<and> purchases < 5 then Reduce \<lfloor>real_of_int p * 0.8\<rfloor>
      else if views > 50 \<and> purchases > 10 \<and> real_of_int purchases / real_of_int views > 0.10 then
        Increase \<lfloor>real_of_int p * 1.2\<rfloor>
      else NoChange)"

section \<open>Marketplace Client\<close>

text \<open>
  Source: class \<^verbatim>\<open>WhopIntegration\<close> in \<^verbatim>\<open>src/whop-api/whop_integration.py\<close>. The network is
  the environment: the outcome of one \<^verbatim>\<open>requests\<close> call is either an exception raised by
  the transport or a response, of which the code reads the status code, the text and
  \<^verbatim>\<open>response.json()\<close> (which raises when the body is not JSON). What the code prints on
  the console is not recorded.
\<close>

record response =
  status_code :: int
  body_text :: string
  body_json :: "exn + json"

type_synonym http_outcome = "exn + response"

subsection \<open>The action log\<close>

text \<open>
  \<^verbatim>\<open>_log_action\<close> (lines 315-329) appends one line, the JSON text of a dict with the keys
  \<^verbatim>\<open>timestamp\<close>, \<^verbatim>\<open>action\<close>, \<^verbatim>\<open>status\<close> and \<^verbatim>\<open>data\<close>, to the file
  \<^verbatim>\<open>logs/whop_api_YYYYMMDD.log\<close>. The clock gives what \<^verbatim>\<open>datetime.now()\<close> formats to; the
  log directory is taken to be writable.
\<close>

record clock =
  iso_now :: string
  day_stamp :: string

record log_entry =
  timestamp :: string
  action :: string
  status :: string
  payload :: "(string \<times> json) list"

type_synonym logs = "string \<Rightarrow> log_entry list"

definition log_file :: "clock \<Rightarrow> string" where
  "log_file c = ''logs/whop_api_'' @ day_stamp c @ ''.log''"

definition log_action :: "clock \<Rightarrow> string \<Rightarrow> string \<Rightarrow> (string \<times> json) list \<Rightarrow> logs \<Rightarrow> logs" where
  "log_action c act st dat L =
     L (log_file c :=
          L (log_file c) @ [\<lparr>timestamp = iso_now c, action = act, status = st, payload = dat\<rparr>])"

subsection \<open>The listing payload\<close>

text \<open>\<^verbatim>\<open>_get_category\<close> (lines 300-313): \<^verbatim>\<open>category_mapping.get(product_type, 'other')\<close>.
  A list or a dict is not hashable, and looking one up raises \<^verbatim>\<open>TypeError\<close>.\<close>

definition category_mapping :: "(string \<times> string) list" where
  "category_mapping =
     [(''ebook'', ''education''),
      (''notion_template'', ''productivity''),
      (''digital_planner'', ''productivity''),
      (''email_templates'', ''marketing''),
      (''course'', ''education''),
      (''membership'', ''community'')]"

fun get_category :: "json \<Rightarrow> exn + string" where
  "get_category (JStr t) =
     Inr (case map_of category_mapping t of Some c \<Rightarrow> c | None \<Rightarrow> ''other'')"
| "get_category (JList xs) = Inl (Raised TypeError ''unhashable type'')"
| "get_category (JObj kvs) = Inl (Raised TypeError ''unhashable type'')"
| "get_category v = Inr ''other''"

text \<open>\<^verbatim>\<open>d[k] = v\<close> and \<^verbatim>\<open>d.update(e)\<close> on a dict in insertion order.\<close>

fun dict_set :: "(string \<times> json) list \<Rightarrow> string \<Rightarrow> json \<Rightarrow> (string \<times> json) list" where
  "dict_set [] k v = [(k, v)]"
| "dict_set ((k', v') # d) k v = (if k' = k then (k, v) # d else (k', v') # dict_set d k v)"

definition dict_update :: "(string \<times> json) list \<Rightarrow> (string \<times> json) list \<Rightarrow> (string \<times> json) list" where
  "dict_update d e = foldl (\<lambda>acc kv. dict_set acc (fst kv) (snd kv)) d e"

text \<open>
  \<^verbatim>\<open>_format_for_whop_api\<close> (lines 254-298). The first \<^verbatim>\<open>product_data.get\<close> raises
  \<^verbatim>\<open>AttributeError\<close> when the document is not a dict. The dict display evaluates its
  values in order: the price product, then the category lookup.
\<close>

definition base_metadata :: "(string \<times> json) list \<Rightarrow> json \<Rightarrow> (string \<times> json) list" where
  "base_metadata d product_type =
     [(''auto_generated'', JBool True),
      (''product_type'', product_type),
      (''plr_rights'', dget d ''plr_rights'' (JBool True)),
      (''mrr_rights'', dget d ''mrr_rights'' (JBool True)),
      (''created_by'', JStr ''nosyt_automation''),
      (''word_count'', dget d ''word_count'' (JInt 0))]"

definition base_product :: "(string \<times> json) list \<Rightarrow> json \<Rightarrow> json \<Rightarrow> string \<Rightarrow> (string \<times> json) list" where
  "base_product d product_type price category =
     [(''title'', dget d ''title'' (JStr ''Untitled Product'')),
      (''description'',
         dget d ''description'' (JStr ''Professional digital product with PLR/MRR rights'')),
      (''price'', price),
      (''type'', JStr ''one_time''),
      (''visibility'', JStr ''public''),
      (''stock'', JInt (- 1)),
      (''category'', JStr category),
      (''tags'', dget d ''tags'' (JList [])),
      (''metadata'', JObj (base_metadata d product_type))]"

definition update_metadata :: "(string \<times> json) list \<Rightarrow> (string \<times> json) list \<Rightarrow> (string \<times> json) list" where
  "update_metadata whop_product extra =
     (case dget whop_product ''metadata'' JNull of
        JObj m \<Rightarrow> dict_set whop_product ''metadata'' (JObj (dict_update m extra))
      | _ \<Rightarrow> whop_product)"

definition format_for_whop_api :: "json \<Rightarrow> exn + json" where
  "format_for_whop_api product_data =
     (case product_data of
        JObj d \<Rightarrow>
          (let product_type = dget d ''type'' (JStr ''digital_product'') in
           case py_mul (dget d ''suggested_price'' (JInt 2997)) 100 of
             Inl e \<Rightarrow> Inl e
           | Inr price \<Rightarrow>
               (case get_category product_type of
                  Inl e \<Rightarrow> Inl e
                | Inr category \<Rightarrow>
                    (let whop_product = base_product d product_type price category in
                     if product_type = JStr ''ebook'' then
                       (case py_len (dget d ''chapters'' (JList [])) of
                          Inl e \<Rightarrow> Inl e
                        | Inr n \<Rightarrow>
                            Inr (JObj (update_metadata whop_product
                              [(''chapters'', JInt (int n)),
                               (''formats'', JList [JStr ''PDF'', JStr ''EPUB'', JStr ''DOCX''])])))
                     else if product_type = JStr ''notion_template'' then
                       Inr (JObj (update_metadata whop_product
                         [(''template_type'', dget d ''template_type'' JNull),
                          (''use_case'', dget d ''use_case'' JNull)]))
                     else if product_type = JStr ''digital_planner'' then
                       Inr (JObj (update_metadata whop_product
                         [(''planner_type'', dget d ''planner_type'' JNull),
                          (''period'', dget d ''period'' JNull),
                          (''formats'', dget d ''formats'' (JList []))]))
                     else Inr (JObj whop_product))))
      | _ \<Rightarrow> Inl (Raised AttributeError ''object has no attribute get''))"

subsection \<open>The operations\<close>

text \<open>
  \<^verbatim>\<open>create_product\<close> (lines 29-73). The first \<^verbatim>\<open>print\<close> and the formatting of the payload
  stand before the \<^verbatim>\<open>try\<close>: what they raise leaves the function. Inside the \<^verbatim>\<open>try\<close>, a
  status other than 201 and every exception (of the transport, of \<^verbatim>\<open>response.json()\<close>,
  of \<^verbatim>\<open>result.get\<close> on a body that is not a dict) give \<^verbatim>\<open>None\<close> after one
  \<^verbatim>\<open>_log_action\<close> with status \<^verbatim>\<open>error\<close>. The result is the exception that left the
  function or the value returned (\<open>None\<close> for \<^verbatim>\<open>None\<close>), with the log files after the call.
\<close>

definition create_failed_msg :: "response \<Rightarrow> string" where
  "create_failed_msg r =
     ''Failed to create product. Status: '' @ show_int (status_code r)
       @ '', Response: '' @ body_text r"

definition log_create_exception :: "clock \<Rightarrow> exn \<Rightarrow> logs \<Rightarrow> logs" where
  "log_create_exception c e L =
     log_action c ''create_product'' ''error''
       [(''error'', JStr (''Exception creating product: '' @ exn_str e))] L"

definition create_product :: "clock \<Rightarrow> json \<Rightarrow> http_outcome \<Rightarrow> logs \<Rightarrow> (exn + json option) \<times> logs" where
  "create_product c product_data outcome L =
     (case product_data of
        JObj d \<Rightarrow>
          (case format_for_whop_api product_data of
             Inl e \<Rightarrow> (Inl e, L)
           | Inr whop_product \<Rightarrow>
               (case outcome of
                  Inl e \<Rightarrow> (Inr None, log_create_exception c e L)
                | Inr resp \<Rightarrow>
                    if status_code resp = 201 then
                      (case body_json resp of
                         Inl e \<Rightarrow> (Inr None, log_create_exception c e L)
                       | Inr (JObj r) \<Rightarrow>
                           (Inr (Some (JObj r)),
                            log_action c ''create_product'' ''success''
                              [(''product_id'', dget r ''id'' JNull),
                               (''title'', dget d ''title'' JNull),
                               (''price'',
                                  (case whop_product of JObj w \<Rightarrow> dget w ''price'' JNull
                                   | _ \<Rightarrow> JNull))] L)
                       | Inr _ \<Rightarrow>
                           (Inr None,
                            log_create_exception c
                              (Raised AttributeError ''object has no attribute get'') L))
                    else
                      (Inr None,
                       log_action c ''create_product'' ''error''
                         [(''title'', dget d ''title'' JNull),
                          (''error'', JStr (create_failed_msg resp))] L)))
      | _ \<Rightarrow> (Inl (Raised AttributeError ''object has no attribute get''), L))"

text \<open>
  \<^verbatim>\<open>update_product_pricing\<close> (lines 154-180), for an int price: \<^verbatim>\<open>_log_action\<close> is
  called in the branch of status 200 only.
\<close>

definition update_product_pricing :: "clock \<Rightarrow> json \<Rightarrow> int \<Rightarrow> http_outcome \<Rightarrow> logs \<Rightarrow> bool \<times> logs" where
  "update_product_pricing c product_id new_price outcome L =
     (case outcome of
        Inl e \<Rightarrow> (False, L)
      | Inr resp \<Rightarrow>
          if status_code resp = 200 then
            (True,
             log_action c ''update_price'' ''success''
               [(''product_id'', product_id), (''new_price'', JInt new_price)] L)
          else (False, L))"


text \<open>\<^verbatim>\<open>get_product_analytics\<close> (lines 182-200).\<close>

definition get_product_analytics :: "http_outcome \<Rightarrow> json option" where
  "get_product_analytics outcome =
     (case outcome of
        Inl e \<Rightarrow> None
      | Inr resp \<Rightarrow>
          if status_code resp = 200 then
            (case body_json resp of Inr v \<Rightarrow> Some v | Inl e \<Rightarrow> None)
          else None)"

subsection \<open>Product documents of the data model\<close>

text \<open>
  Section 3 of the specification types the fields of a product document: \<^verbatim>\<open>type\<close> is a
  tag (a string), \<^verbatim>\<open>suggested_price\<close> an integer, the chapters a sequence. The source reads
  every field with \<^verbatim>\<open>.get\<close> and a default, so a field may be absent. A document is well
  typed when it is a dict whose fields \<^verbatim>\<open>type\<close>, \<^verbatim>\<open>suggested_price\<close> and \<^verbatim>\<open>chapters\<close>, where
  present, have these types.
\<close>

definition field_is :: "(string \<times> json) list \<Rightarrow> string \<Rightarrow> (json \<Rightarrow> bool) \<Rightarrow> bool" where
  "field_is d k P = (case map_of d k of None \<Rightarrow> True | Some v \<Rightarrow> P v)"

definition is_int :: "json \<Rightarrow> bool" where
  "is_int v = (case v of JInt i \<Rightarrow> True | _ \<Rightarrow> False)"

definition is_str :: "json \<Rightarrow> bool" where
  "is_str v = (case v of JStr s \<Rightarrow> True | _ \<Rightarrow> False)"

definition is_list :: "json \<Rightarrow> bool" where
  "is_list v = (case v of JList xs \<Rightarrow> True | _ \<Rightarrow> False)"

definition well_typed_document :: "json \<Rightarrow> bool" where
  "well_typed_document v =
     (case v of
        JObj d \<Rightarrow>
          field_is d ''type'' is_str \<and> field_is d ''suggested_price'' is_int
            \<and> field_is d ''chapters'' is_list
      | _ \<Rightarrow> False)"

text \<open>The four type tags of the data model, and the category the table gives a tag.\<close>

definition document_types :: "string list" where
  "document_types = [''ebook'', ''notion_template'', ''digital_planner'', ''email_templates'']"

definition category_of :: "string \<Rightarrow> string" where
  "category_of t = (case map_of category_mapping t of Some c \<Rightarrow> c | None \<Rightarrow> ''other'')"

text \<open>Closed inputs for the examples: a clock, empty log files, and responses.\<close>

definition clock0 :: clock where
  "clock0 = \<lparr>iso_now = ''2024-01-01T09:00:00'', day_stamp = ''20240101''\<rparr>"

definition no_logs :: logs where
  "no_logs = (\<lambda>f. [])"

definition created :: "string \<Rightarrow> response" where
  "created pid =
     \<lparr>status_code = 201, body_text = ''created'', body_json = Inr (JObj [(''id'', JStr pid)])\<rparr>"

definition server_error :: response where
  "server_error =
     \<lparr>status_code = 500, body_text = ''Internal Server Error'',
      body_json = Inl (Raised ValueError ''Expecting value'')\<rparr>"




section \<open>Batch Uploader: deliverable files\<close>

text \<open>
  Source: class \<^verbatim>\<open>BatchUploader\<close> in \<^verbatim>\<open>src/whop-api/whop_integration.py\<close>, lines 393-617.
  The renderers read a document that is a dict; every subscript, iteration, \<^verbatim>\<open>len\<close> and
  string concatenation raises what Python raises on a value of the wrong type.
\<close>

subsection \<open>Sequencing with exceptions\<close>

definition bind_exn :: "exn + 'a \<Rightarrow> ('a \<Rightarrow> exn + 'b) \<Rightarrow> exn + 'b" where
  "bind_exn m f = (case m of Inl e \<Rightarrow> Inl e | Inr x \<Rightarrow> f x)"

text \<open>A list comprehension: the elements in order, stopped by the first exception.\<close>

fun map_exn :: "('a \<Rightarrow> exn + 'b) \<Rightarrow> 'a list \<Rightarrow> exn + 'b list" where
  "map_exn f [] = Inr []"
| "map_exn f (x # xs) =
     (case f x of
        Inl e \<Rightarrow> Inl e
      | Inr y \<Rightarrow> (case map_exn f xs of Inl e \<Rightarrow> Inl e | Inr ys \<Rightarrow> Inr (y # ys)))"

text \<open>A \<^verbatim>\<open>for\<close> loop that updates an accumulator, stopped by the first exception.\<close>

fun fold_exn :: "('s \<Rightarrow> 'a \<Rightarrow> exn + 's) \<Rightarrow> 'a list \<Rightarrow> 's \<Rightarrow> exn + 's" where
  "fold_exn f [] s = Inr s"
| "fold_exn f (x # xs) s = (case f s x of Inl e \<Rightarrow> Inl e | Inr s' \<Rightarrow> fold_exn f xs s')"

subsection \<open>Dynamic operations on values\<close>

text \<open>Iterating a value: a list gives its elements, a str its characters, a dict its keys.\<close>

fun py_iter :: "json \<Rightarrow> exn + json list" where
  "py_iter (JList xs) = Inr xs"
| "py_iter (JStr s) = Inr (map (\<lambda>c. JStr [c]) s)"
| "py_iter (JObj kvs) = Inr (map (\<lambda>kv. JStr (fst kv)) kvs)"
| "py_iter v = Inl (Raised TypeError ''object is not iterable'')"

text \<open>\<^verbatim>\<open>v[k]\<close> for a string key \<open>k\<close>.\<close>

fun py_getitem :: "json \<Rightarrow> string \<Rightarrow> exn + json" where
  "py_getitem (JObj kvs) k =
     (case map_of kvs k of Some v \<Rightarrow> Inr v | None \<Rightarrow> Inl (Raised KeyError (repr_str k)))"
| "py_getitem (JStr s) k = Inl (Raised TypeError ''string indices must be integers'')"
| "py_getitem (JList xs) k = Inl (Raised TypeError ''list indices must be integers or slices'')"
| "py_getitem v k = Inl (Raised TypeError ''object is not subscriptable'')"

text \<open>\<^verbatim>\<open>v + s\<close> for a str \<open>s\<close>: defined on a str only.\<close>

fun py_concat :: "json \<Rightarrow> string \<Rightarrow> exn + string" where
  "py_concat (JStr a) s = Inr (a @ s)"
| "py_concat v s = Inl (Raised TypeError ''unsupported operand type(s) for +'')"

text \<open>\<^verbatim>\<open>v.replace(a, b)\<close> for a one-character \<open>a\<close>: defined on a str only.\<close>

fun py_replace :: "json \<Rightarrow> char \<Rightarrow> string \<Rightarrow> exn + string" where
  "py_replace (JStr s) a b = Inr (concat (map (\<lambda>c. if c = a then b else [c]) s))"
| "py_replace v a b = Inl (Raised AttributeError ''object has no attribute replace'')"

definition nl :: string where
  "nl = [CHR 0x0A]"

definition chapter_label :: "nat \<Rightarrow> string \<Rightarrow> string" where
  "chapter_label i t = ''Chapter '' @ show_nat (i + 1) @ '': '' @ t"

subsection \<open>The ebook as HTML\<close>

text \<open>
  \<^verbatim>\<open>_generate_ebook_html\<close> (lines 438-486): one f-string. Its expressions are evaluated
  from left to right: the title twice, the subtitle paragraph, the comprehension of the
  table of contents, then the comprehension of the chapters. The template is written line
  by line; the doubled braces of the f-string are single braces of the text.
\<close>

definition html_toc_item :: "nat \<times> json \<Rightarrow> exn + string" where
  "html_toc_item ic =
     bind_exn (py_getitem (snd ic) ''title'') (\<lambda>t.
       Inr (''<li>'' @ chapter_label (fst ic) (py_str t) @ ''</li>''))"

definition html_chapter :: "nat \<times> json \<Rightarrow> exn + string" where
  \<open>html_chapter ic =
     bind_exn (py_getitem (snd ic) ''title'') (\<lambda>t.
     bind_exn (py_getitem (snd ic) ''content'') (\<lambda>c.
       Inr (''<div class="chapter"><h2>'' @ chapter_label (fst ic) (py_str t) @ ''</h2><div>''
            @ py_str c @ ''</div></div>'')))\<close>

definition html_style :: "string list" where
  \<open>html_style =
     [''    <style>'',
      ''        body { font-family: Georgia, serif; line-height: 1.6; max-width: 800px; margin: 0 auto; padding: 20px; }'',
      ''        h1 { color: #333; border-bottom: 3px solid #007acc; padding-bottom: 10px; }'',
      ''        h2 { color: #555; margin-top: 30px; }'',
      ''        .subtitle { font-style: italic; color: #666; margin-bottom: 30px; }'',
      ''        .chapter { margin-bottom: 40px; page-break-after: always; }'',
      ''        .toc { background: #f9f9f9; padding: 20px; margin-bottom: 30px; }'',
      ''        .toc ul { list-style-type: none; }'',
      ''        .toc li { margin: 10px 0; }'',
      ''        .footer { text-align: center; margin-top: 50px; font-size: 0.9em; color: #666; }'',
      ''    </style>'']\<close>

definition html_footer :: "string list" where
  \<open>html_footer =
     [''    <div class="footer">'',
      ''        <p>This ebook comes with Private Label Rights (PLR). You may edit, rebrand, and resell this content.</p>'',
      ''        <p>Generated by Nosyt Automation System</p>'',
      ''    </div>'',
      ''</body>'',
      ''</html>'',
      ''        '']\<close>

definition html_page :: "string \<Rightarrow> string \<Rightarrow> string \<Rightarrow> string \<Rightarrow> string" where
  \<open>html_page title subtitle_par toc body =
     join nl
       (['''',
         ''<!DOCTYPE html>'',
         ''<html lang="en">'',
         ''<head>'',
         ''    <meta charset="UTF-8">'',
         ''    <meta name="viewport" content="width=device-width, initial-scale=1.0">'',
         ''    <title>'' @ title @ ''</title>'']
        @ html_style @
        [''</head>'',
         ''<body>'',
         ''    <h1>'' @ title @ ''</h1>'',
         ''    '' @ subtitle_par,
         ''    '',
         ''    <div class="toc">'',
         ''        <h2>Table of Contents</h2>'',
         ''        <ul>'',
         ''        '' @ toc,
         ''        </ul>'',
         ''    </div>'',
         ''    '',
         ''    '' @ body,
         ''    '']
        @ html_footer)\<close>

definition generate_ebook_html :: "(string \<times> json) list \<Rightarrow> exn + string" where
  \<open>generate_ebook_html d =
     (let title = dget d ''title'' (JStr ''Untitled Ebook'');
          subtitle = dget d ''subtitle'' (JStr '''');
          chapters = dget d ''chapters'' (JList [])
      in bind_exn (py_iter chapters) (\<lambda>chs.
         bind_exn (map_exn html_toc_item (enumerate 0 chs)) (\<lambda>toc.
         bind_exn (map_exn html_chapter (enumerate 0 chs)) (\<lambda>body.
           Inr (html_page (py_str title)
                  (if truthy subtitle then ''<p class="subtitle">'' @ py_str subtitle @ ''</p>''
                   else '''')
                  (concat toc) (concat body))))))\<close>

subsection \<open>The ebook as plain text\<close>

text \<open>
  \<^verbatim>\<open>_generate_ebook_text\<close> (lines 488-517). The text grows by \<^verbatim>\<open>text += ...\<close>; each loop
  is a fold over \<^verbatim>\<open>enumerate(chapters)\<close>.
\<close>

definition text_toc_step :: "string \<Rightarrow> nat \<times> json \<Rightarrow> exn + string" where
  "text_toc_step text ic =
     bind_exn (py_getitem (snd ic) ''title'') (\<lambda>t.
       Inr (text @ chapter_label (fst ic) (py_str t) @ nl))"

definition text_chapter_step :: "string \<Rightarrow> nat \<times> json \<Rightarrow> exn + string" where
  "text_chapter_step text ic =
     bind_exn (py_getitem (snd ic) ''title'') (\<lambda>t.
     bind_exn (py_getitem (snd ic) ''title'') (\<lambda>t'.
     bind_exn (py_len t') (\<lambda>n.
     bind_exn (py_getitem (snd ic) ''content'') (\<lambda>c.
     bind_exn (py_concat c (nl @ nl)) (\<lambda>block.
       Inr (text @ chapter_label (fst ic) (py_str t) @ nl
            @ replicate (n + 12) CHR ''-'' @ nl @ nl
            @ block))))))"

definition text_license :: string where
  "text_license =
     nl @ replicate 50 CHR ''='' @ nl
     @ ''This ebook comes with Private Label Rights (PLR).'' @ nl
     @ ''You may edit, rebrand, and resell this content.'' @ nl
     @ ''Generated by Nosyt Automation System'' @ nl"

definition generate_ebook_text :: "(string \<times> json) list \<Rightarrow> exn + string" where
  "generate_ebook_text d =
     (let title = dget d ''title'' (JStr ''Untitled Ebook'');
          subtitle = dget d ''subtitle'' (JStr '''');
          chapters = dget d ''chapters'' (JList [])
      in bind_exn (py_len title) (\<lambda>n.
         let text0 = py_str title @ nl @ replicate n CHR ''='' @ nl @ nl;
             text1 = (if truthy subtitle then text0 @ py_str subtitle @ nl @ nl else text0);
             text2 = text1 @ ''TABLE OF CONTENTS'' @ nl @ ''-----------------'' @ nl
         in bind_exn (py_iter chapters) (\<lambda>chs.
            bind_exn (fold_exn text_toc_step (enumerate 0 chs) text2) (\<lambda>text3.
            bind_exn (fold_exn text_chapter_step (enumerate 0 chs) (text3 @ nl @ nl)) (\<lambda>text4.
              Inr (text4 @ text_license))))))"

subsection \<open>The ebook as Markdown\<close>

text \<open>\<^verbatim>\<open>_generate_ebook_markdown\<close> (lines 519-547).\<close>

definition md_toc_step :: "string \<Rightarrow> nat \<times> json \<Rightarrow> exn + string" where
  "md_toc_step md ic =
     bind_exn (py_getitem (snd ic) ''title'') (\<lambda>t.
       Inr (md @ show_nat (fst ic + 1) @ ''. '' @ py_str t @ nl))"

definition md_chapter_step :: "string \<Rightarrow> nat \<times> json \<Rightarrow> exn + string" where
  "md_chapter_step md ic =
     bind_exn (py_getitem (snd ic) ''title'') (\<lambda>t.
     bind_exn (py_getitem (snd ic) ''content'') (\<lambda>c.
     bind_exn (py_concat c (nl @ nl)) (\<lambda>block.
       Inr (md @ ''## '' @ chapter_label (fst ic) (py_str t) @ nl @ nl @ block))))"

definition md_license :: string where
  "md_license =
     ''---'' @ nl @ nl
     @ ''**PLR License**: This ebook comes with Private Label Rights (PLR). ''
     @ ''You may edit, rebrand, and resell this content.'' @ nl @ nl
     @ ''*Generated by Nosyt Automation System*'' @ nl"

definition generate_ebook_markdown :: "(string \<times> json) list \<Rightarrow> exn + string" where
  "generate_ebook_markdown d =
     (let title = dget d ''title'' (JStr ''Untitled Ebook'');
          subtitle = dget d ''subtitle'' (JStr '''');
          chapters = dget d ''chapters'' (JList []);
          md0 = ''# '' @ py_str title @ nl @ nl;
          md1 = (if truthy subtitle then md0 @ ''*'' @ py_str subtitle @ ''*'' @ nl @ nl else md0);
          md2 = md1 @ ''## Table of Contents'' @ nl @ nl
      in bind_exn (py_iter chapters) (\<lambda>chs.
         bind_exn (fold_exn md_toc_step (enumerate 0 chs) md2) (\<lambda>md3.
         bind_exn (fold_exn md_chapter_step (enumerate 0 chs) (md3 @ nl @ ''---'' @ nl @ nl)) (\<lambda>md4.
           Inr (md4 @ md_license)))))"

subsection \<open>Writing the deliverables\<close>

text \<open>
  The output files are a map from path to content. A path is the text the f-string and the
  joins spell (\<^verbatim>\<open>pathlib\<close> normalisation is not modelled). \<open>JsonDump v\<close> stands for the
  text \<^verbatim>\<open>json.dump(v, f, indent=2)\<close> writes. The disk is the environment: \<open>disk\<close> is the
  exception \<^verbatim>\<open>output_dir.mkdir\<close> raises, if it raises. A function returns the exception
  that left it (\<open>None\<close> when it returned) and the files as they are then: what was written
  before an exception stays written.
\<close>

datatype file_content = Text string | JsonDump json

type_synonym files = "string \<Rightarrow> file_content option"

definition output_dir :: "json \<Rightarrow> string" where
  "output_dir product_id = ''output/'' @ py_str product_id"

text \<open>\<^verbatim>\<open>_create_ebook_files\<close> (lines 408-436).\<close>

definition create_ebook_files ::
  "exn option \<Rightarrow> (string \<times> json) list \<Rightarrow> json \<Rightarrow> files \<Rightarrow> exn option \<times> files" where
  "create_ebook_files disk d product_id F =
     (case disk of
        Some e \<Rightarrow> (Some e, F)
      | None \<Rightarrow>
          (case generate_ebook_html d of
             Inl e \<Rightarrow> (Some e, F)
           | Inr html_content \<Rightarrow>
               (let F1 = F(output_dir product_id @ ''/ebook.html'' \<mapsto> Text html_content) in
                case generate_ebook_text d of
                  Inl e \<Rightarrow> (Some e, F1)
                | Inr text_content \<Rightarrow>
                    (let F2 = F1(output_dir product_id @ ''/ebook.txt'' \<mapsto> Text text_content) in
                     case generate_ebook_markdown d of
                       Inl e \<Rightarrow> (Some e, F2)
                     | Inr md_content \<Rightarrow>
                         (None, F2(output_dir product_id @ ''/ebook.md'' \<mapsto> Text md_content))))))"

text \<open>
  \<^verbatim>\<open>_create_notion_template_files\<close> (lines 549-569). The heading is written before the
  loop over the instructions starts.
\<close>

definition numbered_line :: "nat \<times> json \<Rightarrow> string" where
  "numbered_line iv = show_nat (fst iv) @ ''. '' @ py_str (snd iv) @ nl"

definition create_notion_template_files ::
  "exn option \<Rightarrow> (string \<times> json) list \<Rightarrow> json \<Rightarrow> files \<Rightarrow> exn option \<times> files" where
  "create_notion_template_files disk d product_id F =
     (case disk of
        Some e \<Rightarrow> (Some e, F)
      | None \<Rightarrow>
          (let F1 = F(output_dir product_id @ ''/notion_structure.json''
                        \<mapsto> JsonDump (dget d ''structure'' (JObj [])));
               instructions = dget d ''instructions'' (JList []);
               instructions_file = output_dir product_id @ ''/setup_instructions.md'';
               heading = ''# '' @ py_str (dget d ''name'' (JStr ''Notion Template''))
                         @ '' - Setup Instructions'' @ nl @ nl
           in case py_iter instructions of
                Inl e \<Rightarrow> (Some e, F1(instructions_file \<mapsto> Text heading))
              | Inr xs \<Rightarrow>
                  (None,
                   F1(instructions_file \<mapsto>
                        Text (heading @ concat (map numbered_line (enumerate 1 xs)))))))"

text \<open>\<^verbatim>\<open>_create_planner_files\<close> (lines 571-592).\<close>

definition create_planner_files ::
  "exn option \<Rightarrow> (string \<times> json) list \<Rightarrow> json \<Rightarrow> files \<Rightarrow> exn option \<times> files" where
  "create_planner_files disk d product_id F =
     (case disk of
        Some e \<Rightarrow> (Some e, F)
      | None \<Rightarrow>
          (let F1 = F(output_dir product_id @ ''/planner_layouts.json''
                        \<mapsto> JsonDump (dget d ''layouts'' (JObj [])));
               instructions_file = output_dir product_id @ ''/planner_instructions.md'';
               heading = ''# '' @ py_str (dget d ''name'' (JStr ''Digital Planner'')) @ nl @ nl
                         @ ''## How to Use This Planner'' @ nl @ nl
                         @ ''This digital planner can be used with:'' @ nl
           in case py_iter (dget d ''formats'' (JList [])) of
                Inl e \<Rightarrow> (Some e, F1(instructions_file \<mapsto> Text heading))
              | Inr xs \<Rightarrow>
                  (None,
                   F1(instructions_file \<mapsto>
                        Text (heading @ concat (map (\<lambda>v. ''- '' @ py_str v @ nl) xs))))))"

text \<open>
  \<^verbatim>\<open>_create_email_template_files\<close> (lines 594-617), one template: the HTML file is
  opened (and so exists, empty) before its first f-string is evaluated; the text file is
  written once the HTML file is complete, when the content is known to be a str.
\<close>

definition email_template_files :: "string \<Rightarrow> nat \<times> json \<Rightarrow> files \<Rightarrow> exn option \<times> files" where
  "email_template_files dir it F =
     (case py_getitem (snd it) ''type'' of
        Inl e \<Rightarrow> (Some e, F)
      | Inr ty \<Rightarrow>
          (let stem = dir @ ''/template_'' @ show_nat (fst it) @ ''_'' @ py_str ty;
               html_file = stem @ ''.html'';
               txt_file = stem @ ''.txt''
           in case py_getitem (snd it) ''subject_line'' of
                Inl e \<Rightarrow> (Some e, F(html_file \<mapsto> Text ''''))
              | Inr subject \<Rightarrow>
                  (let head = ''<!DOCTYPE html>'' @ nl @ ''<html>'' @ nl @ ''<head>'' @ nl
                              @ ''<title>'' @ py_str subject @ ''</title>'' @ nl
                              @ ''</head>'' @ nl @ ''<body>'' @ nl
                   in case py_getitem (snd it) ''content'' of
                        Inl e \<Rightarrow> (Some e, F(html_file \<mapsto> Text head))
                      | Inr content \<Rightarrow>
                          (case py_replace content (CHR 0x0A) (''<br>'' @ nl) of
                             Inl e \<Rightarrow> (Some e, F(html_file \<mapsto> Text head))
                           | Inr body \<Rightarrow>
                               (None,
                                F(html_file \<mapsto>
                                    Text (head @ body @ nl @ ''</body>'' @ nl @ ''</html>''),
                                  txt_file \<mapsto>
                                    Text (''Subject: '' @ py_str subject @ nl @ nl
                                          @ py_str content)))))))"

fun email_loop :: "string \<Rightarrow> (nat \<times> json) list \<Rightarrow> files \<Rightarrow> exn option \<times> files" where
  "email_loop dir [] F = (None, F)"
| "email_loop dir (it # rest) F =
     (case email_template_files dir it F of
        (Some e, F') \<Rightarrow> (Some e, F')
      | (None, F') \<Rightarrow> email_loop dir rest F')"

definition create_email_template_files ::
  "exn option \<Rightarrow> (string \<times> json) list \<Rightarrow> json \<Rightarrow> files \<Rightarrow> exn option \<times> files" where
  "create_email_template_files disk d product_id F =
     (case disk of
        Some e \<Rightarrow> (Some e, F)
      | None \<Rightarrow>
          (case py_iter (dget d ''templates'' (JList [])) of
             Inl e \<Rightarrow> (Some e, F)
           | Inr ts \<Rightarrow> email_loop (output_dir product_id) (enumerate 1 ts) F))"

text \<open>\<^verbatim>\<open>_create_digital_files\<close> (lines 393-406): a document of no known type writes nothing.\<close>

definition create_digital_files ::
  "exn option \<Rightarrow> (string \<times> json) list \<Rightarrow> json \<Rightarrow> files \<Rightarrow> exn option \<times> files" where
  "create_digital_files disk d product_id F =
     (let product_type = dget d ''type'' JNull in
      if product_type = JStr ''ebook'' then create_ebook_files disk d product_id F
      else if product_type = JStr ''notion_template'' then
        create_notion_template_files disk d product_id F
      else if product_type = JStr ''digital_planner'' then create_planner_files disk d product_id F
      else if product_type = JStr ''email_templates'' then
        create_email_template_files disk d product_id F
      else (None, F))"

section \<open>Batch Uploader: the upload loop\<close>

text \<open>
  \<^verbatim>\<open>upload_products_from_directory\<close> (lines 340-391). The products directory is the
  environment: it is missing, or it lists its \<^verbatim>\<open>*.json\<close> files, and for each file the
  scenario says what \<^verbatim>\<open>open\<close> and \<^verbatim>\<open>json.load\<close> give (the parsed document, or the
  exception of an unreadable or malformed file), what the marketplace answers if the
  document is posted, and whether the disk fails when its deliverables are written. One
  iteration makes at most one request. The pause between uploads is not modelled. Of the
  console, the four \<^verbatim>\<open>print\<close> calls of the function itself are recorded.
\<close>

record pending_file =
  file_path :: string
  parsed :: "exn + json"
  post_outcome :: http_outcome
  disk_error :: "exn option"

datatype console_line =
    DirectoryNotFound string
  | FoundProducts nat
  | ErrorProcessing string exn
  | UploadComplete int int

record upload_state =
  success :: int
  failed :: int
  products :: "json list"
  console :: "console_line list"
  action_logs :: logs
  out_files :: files

text \<open>The \<^verbatim>\<open>except Exception as e\<close> of the loop body: print, count a failure.\<close>

definition processing_error :: "pending_file \<Rightarrow> exn \<Rightarrow> upload_state \<Rightarrow> upload_state" where
  "processing_error f e st =
     st\<lparr>console := console st @ [ErrorProcessing (file_path f) e], failed := failed st + 1\<rparr>"

text \<open>\<^verbatim>\<open>v.get(k)\<close> on a value that may not be a dict.\<close>

definition py_get :: "json \<Rightarrow> string \<Rightarrow> exn + json" where
  "py_get v k =
     (case v of JObj d \<Rightarrow> Inr (dget d k JNull)
      | _ \<Rightarrow> Inl (Raised AttributeError ''object has no attribute get''))"

definition success_entry :: "json \<Rightarrow> json \<Rightarrow> json" where
  "success_entry title whop_id =
     JObj [(''title'', title), (''whop_id'', whop_id), (''status'', JStr ''success'')]"

definition failed_entry :: "json \<Rightarrow> json" where
  "failed_entry title = JObj [(''title'', title), (''status'', JStr ''failed'')]"

text \<open>
  The branch \<^verbatim>\<open>if result:\<close> of the loop body. The count of successes is raised and the
  entry appended before the deliverables are written; an exception of the rendering is
  handled by the \<^verbatim>\<open>except\<close> of the loop body like any other.
\<close>

definition record_success :: "pending_file \<Rightarrow> json \<Rightarrow> json \<Rightarrow> upload_state \<Rightarrow> upload_state" where
  "record_success f product_data result st =
     (let st1 = st\<lparr>success := success st + 1\<rparr> in
      case py_get product_data ''title'' of
        Inl e \<Rightarrow> processing_error f e st1
      | Inr title \<Rightarrow>
          (case py_get result ''id'' of
             Inl e \<Rightarrow> processing_error f e st1
           | Inr whop_id \<Rightarrow>
               (let st2 = st1\<lparr>products := products st1 @ [success_entry title whop_id]\<rparr> in
                case product_data of
                  JObj d \<Rightarrow>
                    (case create_digital_files (disk_error f) d whop_id (out_files st2) of
                       (Some e, F) \<Rightarrow> processing_error f e (st2\<lparr>out_files := F\<rparr>)
                     | (None, F) \<Rightarrow> st2\<lparr>out_files := F\<rparr>)
                | _ \<Rightarrow>
                    processing_error f (Raised AttributeError ''object has no attribute get'')
                      st2)))"

definition record_failure :: "pending_file \<Rightarrow> json \<Rightarrow> upload_state \<Rightarrow> upload_state" where
  "record_failure f product_data st =
     (let st1 = st\<lparr>failed := failed st + 1\<rparr> in
      case py_get product_data ''title'' of
        Inl e \<Rightarrow> processing_error f e st1
      | Inr title \<Rightarrow> st1\<lparr>products := products st1 @ [failed_entry title]\<rparr>)"

definition result_truthy :: "json option \<Rightarrow> bool" where
  "result_truthy result = (case result of None \<Rightarrow> False | Some r \<Rightarrow> truthy r)"

definition upload_one :: "clock \<Rightarrow> upload_state \<Rightarrow> pending_file \<Rightarrow> upload_state" where
  "upload_one c st f =
     (case parsed f of
        Inl e \<Rightarrow> processing_error f e st
      | Inr product_data \<Rightarrow>
          (case create_product c product_data (post_outcome f) (action_logs st) of
             (Inl e, L) \<Rightarrow> processing_error f e (st\<lparr>action_logs := L\<rparr>)
           | (Inr result, L) \<Rightarrow>
               if result_truthy result then
                 record_success f product_data (case result of Some r \<Rightarrow> r | None \<Rightarrow> JNull)
                   (st\<lparr>action_logs := L\<rparr>)
               else record_failure f product_data (st\<lparr>action_logs := L\<rparr>)))"

definition initial_results :: "logs \<Rightarrow> files \<Rightarrow> upload_state" where
  "initial_results L F =
     \<lparr>success = 0, failed = 0, products = [], console = [], action_logs = L, out_files = F\<rparr>"

definition upload_products_from_directory ::
  "clock \<Rightarrow> string \<Rightarrow> pending_file list option \<Rightarrow> logs \<Rightarrow> files \<Rightarrow> upload_state" where
  "upload_products_from_directory c products_dir listing L F =
     (case listing of
        None \<Rightarrow> (initial_results L F)\<lparr>console := [DirectoryNotFound products_dir]\<rparr>
      | Some json_files \<Rightarrow>
          (let st = foldl (upload_one c)
                      ((initial_results L F)\<lparr>console := [FoundProducts (length json_files)]\<rparr>)
                      json_files
           in st\<lparr>console := console st @ [UploadComplete (success st) (failed st)]\<rparr>))"

section \<open>The rendering contract of an ebook\<close>

text \<open>
  Section 4.2 of the specification fixes the structure of a rendered ebook, not its bytes:
  the title, the optional subtitle, a table of contents in chapter order, each chapter's
  full content in order, and a trailing license notice. A layout says this once for the
  three formats: a front matter made of the title and the subtitle, one table-of-contents
  entry per chapter, a fixed text, one block per chapter (a heading, the content verbatim,
  a fixed end), and a fixed back matter. The fixed parts do not depend on the chapters.
\<close>

record ebook_format =
  front_matter :: "string \<Rightarrow> string \<Rightarrow> string"
  toc_entry :: "nat \<Rightarrow> string \<Rightarrow> string"
  middle :: string
  heading :: "nat \<Rightarrow> string \<Rightarrow> string"
  block_end :: string
  back_matter :: string

definition ebook_layout :: "ebook_format \<Rightarrow> string \<Rightarrow> string \<Rightarrow> (string \<times> string) list \<Rightarrow> string" where
  "ebook_layout fmt title subtitle chapters =
     front_matter fmt title subtitle
     @ concat (map (\<lambda>ic. toc_entry fmt (fst ic) (fst (snd ic))) (enumerate 0 chapters))
     @ middle fmt
     @ concat (map (\<lambda>ic. heading fmt (fst ic) (fst (snd ic)) @ snd (snd ic) @ block_end fmt)
         (enumerate 0 chapters))
     @ back_matter fmt"

definition license_notice :: string where
  "license_notice = ''This ebook comes with Private Label Rights (PLR).''"

text \<open>
  The typed reading of an ebook document: the title and the subtitle (with the defaults of
  the source) are strings, and the chapters are a list of dicts with a string \<^verbatim>\<open>title\<close>
  and a string \<^verbatim>\<open>content\<close>.
\<close>

definition chapter_fields :: "json \<Rightarrow> (string \<times> string) option" where
  "chapter_fields ch =
     (case ch of
        JObj kvs \<Rightarrow>
          (case map_of kvs ''title'' of
             Some (JStr t) \<Rightarrow>
               (case map_of kvs ''content'' of Some (JStr c) \<Rightarrow> Some (t, c) | _ \<Rightarrow> None)
           | _ \<Rightarrow> None)
      | _ \<Rightarrow> None)"

definition ebook_view :: "(string \<times> json) list \<Rightarrow> (string \<times> string \<times> (string \<times> string) list) option" where
  "ebook_view d =
     (case dget d ''title'' (JStr ''Untitled Ebook'') of
        JStr title \<Rightarrow>
          (case dget d ''subtitle'' (JStr '''') of
             JStr subtitle \<Rightarrow>
               (case dget d ''chapters'' (JList []) of
                  JList chs \<Rightarrow>
                    if list_all (\<lambda>ch. chapter_fields ch \<noteq> None) chs
                    then Some (title, subtitle, map (\<lambda>ch. the (chapter_fields ch)) chs)
                    else None
                | _ \<Rightarrow> None)
           | _ \<Rightarrow> None)
      | _ \<Rightarrow> None)"

text \<open>The three formats, read off the three renderers.\<close>

definition html_front_lines :: "string \<Rightarrow> string \<Rightarrow> string list" where
  \<open>html_front_lines title subtitle =
     ['''',
      ''<!DOCTYPE html>'',
      ''<html lang="en">'',
      ''<head>'',
      ''    <meta charset="UTF-8">'',
      ''    <meta name="viewport" content="width=device-width, initial-scale=1.0">'',
      ''    <title>'' @ title @ ''</title>'']
     @ html_style @
     [''</head>'',
      ''<body>'',
      ''    <h1>'' @ title @ ''</h1>'',
      ''    '' @ (if subtitle = [] then [] else ''<p class="subtitle">'' @ subtitle @ ''</p>''),
      ''    '',
      ''    <div class="toc">'',
      ''        <h2>Table of Contents</h2>'',
      ''        <ul>'',
      ''        '']\<close>

definition html_format :: ebook_format where
  \<open>html_format =
     \<lparr>front_matter = (\<lambda>title subtitle. join nl (html_front_lines title subtitle)),
      toc_entry = (\<lambda>i t. ''<li>'' @ chapter_label i t @ ''</li>''),
      middle = nl @ ''        </ul>'' @ nl @ ''    </div>'' @ nl @ ''    '' @ nl @ ''    '',
      heading = (\<lambda>i t. ''<div class="chapter"><h2>'' @ chapter_label i t @ ''</h2><div>''),
      block_end = ''</div></div>'',
      back_matter = nl @ ''    '' @ nl @ join nl html_footer\<rparr>\<close>

definition text_format :: ebook_format where
  "text_format =
     \<lparr>front_matter = (\<lambda>title subtitle.
        title @ nl @ replicate (length title) CHR ''='' @ nl @ nl
        @ (if subtitle = [] then [] else subtitle @ nl @ nl)
        @ ''TABLE OF CONTENTS'' @ nl @ ''-----------------'' @ nl),
      toc_entry = (\<lambda>i t. chapter_label i t @ nl),
      middle = nl @ nl,
      heading = (\<lambda>i t. chapter_label i t @ nl @ replicate (length t + 12) CHR ''-'' @ nl @ nl),
      block_end = nl @ nl,
      back_matter = text_license\<rparr>"

definition md_format :: ebook_format where
  "md_format =
     \<lparr>front_matter = (\<lambda>title subtitle.
        ''# '' @ title @ nl @ nl
        @ (if subtitle = [] then [] else ''*'' @ subtitle @ ''*'' @ nl @ nl)
        @ ''## Table of Contents'' @ nl @ nl),
      toc_entry = (\<lambda>i t. show_nat (i + 1) @ ''. '' @ t @ nl),
      middle = nl @ ''---'' @ nl @ nl,
      heading = (\<lambda>i t. ''## '' @ chapter_label i t @ nl @ nl),
      block_end = nl @ nl,
      back_matter = md_license\<rparr>"

text \<open>
  What the contract asks of a format: the front matter shows the title and the subtitle,
  an entry of the table of contents shows the chapter's title, a heading shows the
  chapter's number and title, and the back matter shows the license notice.
\<close>

definition shows_contract :: "ebook_format \<Rightarrow> string \<Rightarrow> string \<Rightarrow> (string \<times> string) list \<Rightarrow> bool" where
  "shows_contract fmt title subtitle chapters =
     (sublist title (front_matter fmt title subtitle)
      \<and> sublist subtitle (front_matter fmt title subtitle)
      \<and> list_all (\<lambda>ic. sublist (fst (snd ic)) (toc_entry fmt (fst ic) (fst (snd ic)))
                     \<and> sublist (chapter_label (fst ic) (fst (snd ic)))
                          (heading fmt (fst ic) (fst (snd ic))))
           (enumerate 0 chapters)
      \<and> sublist license_notice (back_matter fmt))"

text \<open>The document of the scenario in section 8 of the specification.\<close>

definition ebook_AB :: "(string \<times> json) list" where
  "ebook_AB =
     [(''type'', JStr ''ebook''),
      (''title'', JStr ''T''),
      (''chapters'',
         JList [JObj [(''title'', JStr ''A''), (''content'', JStr ''x'')],
                JObj [(''title'', JStr ''B''), (''content'', JStr ''y'')]]),
      (''suggested_price'', JInt 15)]"

subsection \<open>What becomes of one pending file\<close>

text \<open>
  What \<^verbatim>\<open>create_product\<close> returns does not depend on the clock or on the log files, and
  whether the rendering raises does not depend on the files already written. So the fate
  of a pending file is a function of its scenario alone. A file gets no verdict when it is
  unreadable or malformed, or when \<^verbatim>\<open>create_product\<close> raises on its document; otherwise
  its listing was created (the result is truthy) or its creation failed.
\<close>

definition no_files :: files where
  "no_files = (\<lambda>p. None)"

definition file_verdict :: "pending_file \<Rightarrow> bool option" where
  "file_verdict f =
     (case parsed f of
        Inl e \<Rightarrow> None
      | Inr product_data \<Rightarrow>
          (case fst (create_product clock0 product_data (post_outcome f) no_logs) of
             Inl e \<Rightarrow> None
           | Inr result \<Rightarrow> Some (result_truthy result)))"

definition rendering_raises :: "pending_file \<Rightarrow> bool" where
  "rendering_raises f =
     (case parsed f of
        Inr (JObj d) \<Rightarrow>
          (case fst (create_product clock0 (JObj d) (post_outcome f) no_logs) of
             Inr (Some (JObj r)) \<Rightarrow>
               r \<noteq> [] \<and> fst (create_digital_files (disk_error f) d (dget r ''id'' JNull) no_files) \<noteq> None
           | _ \<Rightarrow> False)
      | _ \<Rightarrow> False)"

definition count_files :: "(pending_file \<Rightarrow> bool) \<Rightarrow> pending_file list \<Rightarrow> int" where
  "count_files P fs = int (length (filter P fs))"

text \<open>Scenarios for the examples.\<close>

definition broken_file :: pending_file where
  "broken_file =
     \<lparr>file_path = ''generated_products/broken.json'',
      parsed = Inl (Raised ValueError ''Expecting value''),
      post_outcome = Inr (created ''p_1''),
      disk_error = None\<rparr>"

definition good_file :: pending_file where
  "good_file =
     \<lparr>file_path = ''generated_products/ebook_t.json'',
      parsed = Inr (JObj ebook_AB),
      post_outcome = Inr (created ''p_1''),
      disk_error = None\<rparr>"

definition rejected_file :: pending_file where
  "rejected_file =
     \<lparr>file_path = ''generated_products/ebook_r.json'',
      parsed = Inr (JObj ebook_AB),
      post_outcome = Inr server_error,
      disk_error = None\<rparr>"

text \<open>An ebook whose only chapter has a title and no content: its listing is created, and
  rendering it raises \<^verbatim>\<open>KeyError\<close>.\<close>

definition orphan_file :: pending_file where
  "orphan_file =
     \<lparr>file_path = ''generated_products/ebook_o.json'',
      parsed = Inr (JObj [(''type'', JStr ''ebook''), (''title'', JStr ''T''),
                          (''chapters'', JList [JObj [(''title'', JStr ''A'')]]),
                          (''suggested_price'', JInt 15)]),
      post_outcome = Inr (created ''p_2''),
      disk_error = None\<rparr>"

section \<open>Scheduler/Orchestrator: the daily cycle\<close>

text \<open>
  Source: \<^verbatim>\<open>AutoLauncher.run_daily_automation\<close> in \<^verbatim>\<open>src/automation/auto_launcher.py\<close>,
  lines 100-125: one \<^verbatim>\<open>try\<close> around the four stage calls, one \<^verbatim>\<open>except Exception\<close> after
  them.
  \<^verbatim>\<open>
  try:
      if self.config['auto_generate']:
          generated_count = self._generate_daily_products()
          self.logger.info(f"Generated {generated_count} products")
      if self.config['auto_upload']:
          upload_results = self._upload_pending_products()
          self.logger.info(f"Upload results: ... success, ... failed")
      if self.config['price_optimization']:
          self._optimize_product_prices()
      self._generate_daily_report()
      self.logger.info("Daily automation cycle completed successfully")
  except Exception as e:
      self.logger.error(f"Daily automation failed: {e}")
  \<close>
  A run is given by what each stage call does in it, returning its value or raising past
  its own handlers, and is observed as the sequence of stage calls and of the records the
  cycle writes to its logger. The three options are read as truth values.
\<close>

datatype stage = Generate | Upload | OptimizePrices | Report

datatype cycle_message =
    StartingCycle
  | GeneratedProducts int
  | UploadResults int int
  | CycleCompleted
  | CycleFailed exn

datatype cycle_event = Called stage | LogInfo cycle_message | LogError cycle_message

record config =
  auto_generate :: bool
  auto_upload :: bool
  price_optimization :: bool

record stage_outcomes =
  generate_outcome :: "exn + int"
  upload_outcome :: "exn + int \<times> int"
  optimize_outcome :: "exn + unit"
  report_outcome :: "exn + unit"

definition run_daily_automation :: "config \<Rightarrow> stage_outcomes \<Rightarrow> cycle_event list" where
  "run_daily_automation cfg env =
     (let t0 = [LogInfo StartingCycle] in
      case (if auto_generate cfg then
              (case generate_outcome env of
                 Inl e \<Rightarrow> (Some e, t0 @ [Called Generate])
               | Inr n \<Rightarrow> (None, t0 @ [Called Generate, LogInfo (GeneratedProducts n)]))
            else (None, t0)) of
        (Some e, t1) \<Rightarrow> t1 @ [LogError (CycleFailed e)]
      | (None, t1) \<Rightarrow>
          (case (if auto_upload cfg then
                   (case upload_outcome env of
                      Inl e \<Rightarrow> (Some e, t1 @ [Called Upload])
                    | Inr r \<Rightarrow>
                        (None, t1 @ [Called Upload, LogInfo (UploadResults (fst r) (snd r))]))
                 else (None, t1)) of
             (Some e, t2) \<Rightarrow> t2 @ [LogError (CycleFailed e)]
           | (None, t2) \<Rightarrow>
               (case (if price_optimization cfg then
                        (case optimize_outcome env of
                           Inl e \<Rightarrow> (Some e, t2 @ [Called OptimizePrices])
                         | Inr u \<Rightarrow> (None, t2 @ [Called OptimizePrices]))
                      else (None, t2)) of
                  (Some e, t3) \<Rightarrow> t3 @ [LogError (CycleFailed e)]
                | (None, t3) \<Rightarrow>
                    (case report_outcome env of
                       Inl e \<Rightarrow> t3 @ [Called Report, LogError (CycleFailed e)]
                     | Inr u \<Rightarrow> t3 @ [Called Report, LogInfo CycleCompleted]))))"




text \<open>The default configuration of \<^verbatim>\<open>_load_config\<close>, and runs for the examples.\<close>

definition default_config :: config where
  "default_config = \<lparr>auto_generate = True, auto_upload = True, price_optimization = True\<rparr>"


definition generation_raises :: stage_outcomes where
  "generation_raises =
     \<lparr>generate_outcome = Inl (Raised ValueError ''generation failed''),
      upload_outcome = Inr (0, 0),
      optimize_outcome = Inr (),
      report_outcome = Inr ()\<rparr>"

subsection \<open>The generation stage\<close>

text \<open>
  \<^verbatim>\<open>_generate_daily_products\<close> (lines 127-161). The body of the inner loop is one \<^verbatim>\<open>try\<close>
  with \<^verbatim>\<open>except Exception\<close>; nothing outside it can raise. The Content Generator is the
  environment: for the iteration \<open>(product_type, i)\<close> and the request made, it returns a
  package (\<^verbatim>\<open>None\<close> is \<open>JNull\<close>) or raises. The stage returns the count and the records
  it wrote to the logger.
\<close>

definition profitable_niches :: "(string \<times> string \<times> string) list" where
  "profitable_niches =
     [(''Social Media Marketing Mastery'', ''entrepreneurs'', ''business''),
      (''Dropshipping Empire Blueprint'', ''ecommerce beginners'', ''business''),
      (''Real Estate Investment Guide'', ''investors'', ''finance''),
      (''Affiliate Marketing Secrets'', ''online marketers'', ''business''),
      (''Email Marketing Templates'', ''business owners'', ''marketing''),
      (''Ultimate Productivity Planner'', ''professionals'', ''productivity''),
      (''Digital Detox Challenge'', ''wellness seekers'', ''wellness''),
      (''Goal Setting Workbook'', ''achievers'', ''productivity''),
      (''Time Management Mastery'', ''busy professionals'', ''productivity''),
      (''Habit Tracker Templates'', ''self-improvement'', ''wellness''),
      (''30-Day Fitness Planner'', ''fitness enthusiasts'', ''wellness''),
      (''Meal Prep Made Simple'', ''health conscious'', ''wellness''),
      (''Mental Health Journal'', ''wellness seekers'', ''wellness''),
      (''Stress Management Guide'', ''professionals'', ''wellness''),
      (''Sleep Optimization Blueprint'', ''health optimizers'', ''wellness''),
      (''Personal Finance Tracker'', ''young adults'', ''finance''),
      (''Cryptocurrency Basics'', ''crypto beginners'', ''finance''),
      (''Retirement Planning Guide'', ''adults 30+'', ''finance''),
      (''Side Hustle Starter Kit'', ''income seekers'', ''business''),
      (''Budgeting Templates Bundle'', ''savers'', ''finance'')]"

definition daily_targets :: "(string \<times> nat) list" where
  "daily_targets = [(''ebooks'', 2), (''templates'', 3), (''planners'', 1), (''email_templates'', 1)]"

datatype gen_request =
    GenerateEbook string string
  | GenerateNotionTemplate string string
  | GeneratePlannerTemplate string string
  | GenerateEmailTemplates string nat

type_synonym generator = "string \<times> nat \<Rightarrow> gen_request \<Rightarrow> exn + json"

datatype generation_record = GeneratedOne string json | FailedToGenerate string exn

definition template_types :: "string list" where
  "template_types =
     [''productivity dashboard'', ''project tracker'', ''content calendar'', ''business planner'']"

definition periods :: "string list" where
  "periods = [''daily'', ''weekly'', ''monthly'']"

text \<open>
  The request of one iteration. A product type other than the four of \<open>daily_targets\<close>
  makes no request and leaves \<^verbatim>\<open>result\<close> as it was; in a first iteration it is unbound and
  reading it raises. With the fixed \<open>daily_targets\<close> that branch is not reached.
\<close>

definition gen_request_for :: "string \<Rightarrow> nat \<Rightarrow> int \<Rightarrow> exn + gen_request" where
  "gen_request_for product_type i generated_count =
     (case profitable_niches ! nat (generated_count mod int (length profitable_niches)) of
        (topic, audience, category) \<Rightarrow>
          if product_type = ''ebooks'' then Inr (GenerateEbook topic audience)
          else if product_type = ''templates'' then
            Inr (GenerateNotionTemplate (template_types ! (i mod length template_types)) topic)
          else if product_type = ''planners'' then
            Inr (GeneratePlannerTemplate category (periods ! (i mod length periods)))
          else if product_type = ''email_templates'' then Inr (GenerateEmailTemplates category 5)
          else Inl (Raised NameError ''local variable result referenced before assignment''))"

definition generate_step ::
  "generator \<Rightarrow> int \<times> generation_record list \<Rightarrow> string \<times> nat \<Rightarrow> int \<times> generation_record list" where
  "generate_step gen acc it =
     (let generated_count = fst acc; records = snd acc; product_type = fst it in
      case bind_exn (gen_request_for product_type (snd it) generated_count) (gen it) of
        Inl e \<Rightarrow> (generated_count, records @ [FailedToGenerate product_type e])
      | Inr result \<Rightarrow>
          if truthy result then
            (case result of
               JObj d \<Rightarrow>
                 (generated_count + 1,
                  records @ [GeneratedOne product_type (dget d ''title'' (JStr ''Untitled''))])
             | _ \<Rightarrow>
                 (generated_count + 1,
                  records @ [FailedToGenerate product_type
                               (Raised AttributeError ''object has no attribute get'')]))
          else (generated_count, records))"

definition iterations :: "(string \<times> nat) list \<Rightarrow> (string \<times> nat) list" where
  "iterations targets = concat (map (\<lambda>t. map (\<lambda>i. (fst t, i)) [0..<snd t]) targets)"

definition generate_daily_products :: "generator \<Rightarrow> int \<times> generation_record list" where
  "generate_daily_products gen = foldl (generate_step gen) (0, []) (iterations daily_targets)"

text \<open>A Content Generator that is down: every call raises.\<close>

definition generator_down :: generator where
  "generator_down = (\<lambda>it request. Inl (Raised RequestException ''connection refused''))"

section \<open>The Product Store\<close>

text \<open>
  The Content Generator writes a package with \<^verbatim>\<open>json.dump(package, f, indent=2)\<close>
  (\<^verbatim>\<open>src/generators/ai_product_generator.py\<close>, lines 83-84) and the Batch Uploader reads
  it with \<^verbatim>\<open>json.load(f)\<close> (\<^verbatim>\<open>src/whop-api/whop_integration.py\<close>, lines 360-361). Both
  are functions of Python's \<^verbatim>\<open>json\<close> module, which are modelled here on the values of
  type \<open>json\<close>: the text that \<^verbatim>\<open>dump\<close> writes with its default separators and
  \<^verbatim>\<open>ensure_ascii\<close>, and the scanner of \<^verbatim>\<open>load\<close>.
\<close>

subsection \<open>Writing\<close>

text \<open>
  A string is written between double quotes; the quote, the backslash and the control
  characters with a short escape are written with it, every other character outside
  the printable ASCII range as \<^verbatim>\<open>\u00XX\<close>.
\<close>

definition escape_char :: "char \<Rightarrow> string" where
  "escape_char c =
     (if c = CHR 0x22 then [CHR 0x5C, CHR 0x22]
      else if c = CHR 0x5C then [CHR 0x5C, CHR 0x5C]
      else if c = CHR 0x0A then [CHR 0x5C, CHR ''n'']
      else if c = CHR 0x0D then [CHR 0x5C, CHR ''r'']
      else if c = CHR 0x09 then [CHR 0x5C, CHR ''t'']
      else if c = CHR 0x08 then [CHR 0x5C, CHR ''b'']
      else if c = CHR 0x0C then [CHR 0x5C, CHR ''f'']
      else if (32::nat) \<le> of_char c \<and> of_char c \<le> (126::nat) then [c]
      else [CHR 0x5C, CHR ''u'', CHR ''0'', CHR ''0'',
            hex_char (of_char c div 16), hex_char (of_char c)])"

definition encode_string :: "string \<Rightarrow> string" where
  "encode_string s = CHR 0x22 # concat (map escape_char s) @ [CHR 0x22]"

text \<open>
  With \<^verbatim>\<open>indent=2\<close> every item of a non-empty list or dict stands on a line of its own,
  indented by two spaces for each level; the items are separated by a comma, a key
  from its value by a colon and a space.
\<close>

definition newline_indent :: "nat \<Rightarrow> string" where
  "newline_indent level = CHR 0x0A # replicate (2 * level) (CHR '' '')"

fun dump :: "nat \<Rightarrow> json \<Rightarrow> string" where
  "dump level JNull = ''null''"
| "dump level (JBool b) = (if b then ''true'' else ''false'')"
| "dump level (JInt i) = show_int i"
| "dump level (JStr s) = encode_string s"
| "dump level (JList xs) =
     (if xs = [] then ''[]''
      else ''['' @ newline_indent (Suc level)
        @ join ('','' @ newline_indent (Suc level)) (map (dump (Suc level)) xs)
        @ newline_indent level @ '']'')"
| "dump level (JObj kvs) =
     (if kvs = [] then ''{}''
      else ''{'' @ newline_indent (Suc level)
        @ join ('','' @ newline_indent (Suc level))
            (map (\<lambda>kv. encode_string (fst kv) @ '': '' @ dump (Suc level) (snd kv)) kvs)
        @ newline_indent level @ ''}'')"

definition dumps :: "json \<Rightarrow> string" where
  "dumps v = dump 0 v"

subsection \<open>Reading\<close>

text \<open>
  The scanner gives the value read and the rest of the text, or \<open>None\<close>: where Python
  raises \<^verbatim>\<open>JSONDecodeError\<close>, and where the text holds a float or a character above
  \<^verbatim>\<open>U+00FF\<close>, which are outside the model.
\<close>

definition is_ws :: "char \<Rightarrow> bool" where
  "is_ws c = (c = CHR '' '' \<or> c = CHR 0x0A \<or> c = CHR 0x0D \<or> c = CHR 0x09)"

definition skip_ws :: "string \<Rightarrow> string" where
  "skip_ws s = dropWhile is_ws s"

definition hex_val :: "char \<Rightarrow> nat option" where
  "hex_val c =
     (let k = of_char c :: nat in
      if 48 \<le> k \<and> k \<le> 57 then Some (k - 48)
      else if 97 \<le> k \<and> k \<le> 102 then Some (k - 87)
      else if 65 \<le> k \<and> k \<le> 70 then Some (k - 55)
      else None)"

definition unescape :: "char \<Rightarrow> char option" where
  "unescape e =
     (if e = CHR 0x22 then Some (CHR 0x22)
      else if e = CHR 0x5C then Some (CHR 0x5C)
      else if e = CHR ''/'' then Some (CHR ''/'')
      else if e = CHR ''b'' then Some (CHR 0x08)
      else if e = CHR ''f'' then Some (CHR 0x0C)
      else if e = CHR ''n'' then Some (CHR 0x0A)
      else if e = CHR ''r'' then Some (CHR 0x0D)
      else if e = CHR ''t'' then Some (CHR 0x09)
      else None)"

definition unicode_escape :: "char \<Rightarrow> char \<Rightarrow> char \<Rightarrow> char \<Rightarrow> char option" where
  "unicode_escape h1 h2 h3 h4 =
     (case (hex_val h1, hex_val h2, hex_val h3, hex_val h4) of
        (Some a, Some b, Some c, Some d) \<Rightarrow>
          if a = 0 \<and> b = 0 then Some (char_of (16 * c + d)) else None
      | _ \<Rightarrow> None)"

definition cons_char :: "char \<Rightarrow> (string \<times> string) option \<Rightarrow> (string \<times> string) option" where
  "cons_char c r = (case r of None \<Rightarrow> None | Some (s, rest) \<Rightarrow> Some (c # s, rest))"

text \<open>The characters of a string after its opening quote, up to the closing quote.\<close>

fun scan_string :: "string \<Rightarrow> (string \<times> string) option" where
  "scan_string [] = None"
| "scan_string [c] = (if c = CHR 0x22 then Some ([], []) else None)"
| "scan_string (c # e # cs) =
     (if c = CHR 0x22 then Some ([], e # cs)
      else if c = CHR 0x5C then
        (if e = CHR ''u'' then
           (case cs of
              h1 # h2 # h3 # h4 # cs' \<Rightarrow>
                (case unicode_escape h1 h2 h3 h4 of
                   None \<Rightarrow> None
                 | Some d \<Rightarrow> cons_char d (scan_string cs'))
            | _ \<Rightarrow> None)
         else
           (case unescape e of
              None \<Rightarrow> None
            | Some d \<Rightarrow> cons_char d (scan_string cs)))
      else if of_char c < (32::nat) then None
      else cons_char c (scan_string (e # cs)))"

text \<open>
  An int is an optional minus sign and \<^verbatim>\<open>0\<close> or a digit other than \<^verbatim>\<open>0\<close> followed by
  digits. A fraction or an exponent after it makes a float.
\<close>

definition is_digit :: "char \<Rightarrow> bool" where
  "is_digit c = ((48::nat) \<le> of_char c \<and> of_char c \<le> (57::nat))"

definition digits_val :: "string \<Rightarrow> nat" where
  "digits_val s = foldl (\<lambda>n c. 10 * n + (of_char c - 48)) 0 s"

definition scan_nat :: "string \<Rightarrow> (nat \<times> string) option" where
  "scan_nat s =
     (case s of
        [] \<Rightarrow> None
      | c # cs \<Rightarrow>
          if c = CHR ''0'' then Some (0, cs)
          else if is_digit c then Some (digits_val (takeWhile is_digit s), dropWhile is_digit s)
          else None)"

definition scan_int :: "string \<Rightarrow> (int \<times> string) option" where
  "scan_int s =
     (case s of
        [] \<Rightarrow> None
      | c # cs \<Rightarrow>
          if c = CHR ''-'' then
            (case scan_nat cs of None \<Rightarrow> None | Some (n, r) \<Rightarrow> Some (- int n, r))
          else (case scan_nat s of None \<Rightarrow> None | Some (n, r) \<Rightarrow> Some (int n, r)))"

definition starts_float_part :: "string \<Rightarrow> bool" where
  "starts_float_part r =
     (case r of [] \<Rightarrow> False | c # cs \<Rightarrow> c = CHR ''.'' \<or> c = CHR ''e'' \<or> c = CHR ''E'')"

definition scan_number :: "string \<Rightarrow> (json \<times> string) option" where
  "scan_number s =
     (case scan_int s of
        None \<Rightarrow> None
      | Some (i, r) \<Rightarrow> if starts_float_part r then None else Some (JInt i, r))"

text \<open>
  \<^verbatim>\<open>scan_once\<close>, \<^verbatim>\<open>JSONArray\<close> and \<^verbatim>\<open>JSONObject\<close> of the decoder. The first argument
  bounds the number of nested calls; \<open>loads\<close> starts with twice the length of the text,
  which is never used up. A key read twice keeps its place and takes the last value,
  as an assignment to a dict does.
\<close>

fun scan_value :: "nat \<Rightarrow> string \<Rightarrow> (json \<times> string) option"
  and scan_array :: "nat \<Rightarrow> json list \<Rightarrow> string \<Rightarrow> (json \<times> string) option"
  and scan_object :: "nat \<Rightarrow> (string \<times> json) list \<Rightarrow> string \<Rightarrow> (json \<times> string) option"
where
  "scan_value 0 s = None"
| "scan_value (Suc n) s =
     (case s of
        [] \<Rightarrow> None
      | c # cs \<Rightarrow>
          if c = CHR 0x22 then
            (case scan_string cs of None \<Rightarrow> None | Some (t, r) \<Rightarrow> Some (JStr t, r))
          else if c = CHR ''['' then
            (case skip_ws cs of
               [] \<Rightarrow> None
             | d # ds \<Rightarrow>
                 if d = CHR '']'' then Some (JList [], ds) else scan_array n [] (d # ds))
          else if c = CHR ''{'' then
            (case skip_ws cs of
               [] \<Rightarrow> None
             | d # ds \<Rightarrow>
                 if d = CHR ''}'' then Some (JObj [], ds) else scan_object n [] (d # ds))
          else if take 4 s = ''null'' then Some (JNull, drop 4 s)
          else if take 4 s = ''true'' then Some (JBool True, drop 4 s)
          else if take 5 s = ''false'' then Some (JBool False, drop 5 s)
          else scan_number s)"
| "scan_array 0 acc s = None"
| "scan_array (Suc n) acc s =
     (case scan_value n s of
        None \<Rightarrow> None
      | Some (v, r) \<Rightarrow>
          (case skip_ws r of
             [] \<Rightarrow> None
           | d # ds \<Rightarrow>
               if d = CHR '','' then scan_array n (acc @ [v]) (skip_ws ds)
               else if d = CHR '']'' then Some (JList (acc @ [v]), ds)
               else None))"
| "scan_object 0 acc s = None"
| "scan_object (Suc n) acc s =
     (case s of
        [] \<Rightarrow> None
      | q # cs \<Rightarrow>
          if q \<noteq> CHR 0x22 then None
          else
            (case scan_string cs of
               None \<Rightarrow> None
             | Some (k, r) \<Rightarrow>
                 (case skip_ws r of
                    [] \<Rightarrow> None
                  | d # ds \<Rightarrow>
                      if d \<noteq> CHR '':'' then None
                      else
                        (case scan_value n (skip_ws ds) of
                           None \<Rightarrow> None
                         | Some (v, r') \<Rightarrow>
                             (case skip_ws r' of
                                [] \<Rightarrow> None
                              | e # es \<Rightarrow>
                                  if e = CHR '','' then
                                    scan_object n (dict_set acc k v) (skip_ws es)
                                  else if e = CHR ''}'' then Some (JObj (dict_set acc k v), es)
                                  else None)))))"

definition loads :: "string \<Rightarrow> json option" where
  "loads s =
     (case scan_value (2 * length s) (skip_ws s) of
        None \<Rightarrow> None
      | Some (v, r) \<Rightarrow> if skip_ws r = [] then Some v else None)"

text \<open>
  A value of Python has dicts with distinct keys: of the values of type \<open>json\<close>, these
  are the ones below.
\<close>

fun python_value :: "json \<Rightarrow> bool" where
  "python_value (JList xs) = list_all python_value xs"
| "python_value (JObj kvs) =
     (distinct (map fst kvs) \<and> list_all (\<lambda>kv. python_value (snd kv)) kvs)"
| "python_value v = True"

text \<open>What follows a value inside the text that \<open>dump\<close> writes: nothing, a comma or a line break.\<close>

definition delimited :: "string \<Rightarrow> bool" where
  "delimited r = (case r of [] \<Rightarrow> True | c # cs \<Rightarrow> c = CHR '','' \<or> c = CHR 0x0A)"

section \<open>The pricing rule, verified\<close>

subsection \<open>Rounding\<close>

lemma bitlen_pos_bounds:
  assumes "0 < n"
  shows "\<exists>k. bitlen n = int k + 1 \<and> 2 ^ k \<le> n \<and> n < 2 ^ (k + 1)"
proof -
  have "0 < bitlen n"
    using assms bitlen_eq_zero_iff [of n] bitlen_nonneg [of n] by linarith
  then have eq: "bitlen n = int (nat (bitlen n - 1)) + 1"
    by simp
  have "nat (bitlen n) = nat (bitlen n - 1) + 1"
    using \<open>0 < bitlen n\<close> by linarith
  then have "2 ^ nat (bitlen n - 1) \<le> n \<and> n < 2 ^ (nat (bitlen n - 1) + 1)"
    using bitlen_bounds [OF assms] by simp
  with eq show ?thesis
    by blast
qed

lemma ilog2_bounds:
  assumes "0 < x"
  shows "2 powi ilog2 x \<le> x \<and> x < 2 powi (ilog2 x + 1)"
proof (cases "1 \<le> x")
  case True
  then have "0 < \<lfloor>x\<rfloor>"
    by simp
  then obtain k where k: "bitlen \<lfloor>x\<rfloor> = int k + 1" "2 ^ k \<le> \<lfloor>x\<rfloor>" "\<lfloor>x\<rfloor> < 2 ^ (k + 1)"
    using bitlen_pos_bounds by blast
  have e: "ilog2 x = int k"
    using True k(1) by (simp add: ilog2_def)
  have "(of_int (2 ^ k) :: rat) \<le> of_int \<lfloor>x\<rfloor>"
    using k(2) by (simp only: of_int_le_iff)
  moreover have "(of_int \<lfloor>x\<rfloor> :: rat) \<le> x"
    by (rule of_int_floor_le)
  moreover have "(of_int (2 ^ k) :: rat) = 2 ^ k"
    by simp
  ultimately have lo: "(2::rat) ^ k \<le> x"
    by linarith
  have "\<lfloor>x\<rfloor> + 1 \<le> 2 ^ (k + 1)"
    using k(3) by simp
  then have "(of_int (\<lfloor>x\<rfloor> + 1) :: rat) \<le> of_int (2 ^ (k + 1))"
    by (simp only: of_int_le_iff)
  moreover have "x < of_int (\<lfloor>x\<rfloor> + 1)"
    using floor_correct [of x] by simp
  moreover have "(of_int (2 ^ (k + 1)) :: rat) = 2 ^ (k + 1)"
    by simp
  ultimately have hi: "x < (2::rat) ^ (k + 1)"
    by linarith
  have "(2::rat) powi (int k + 1) = 2 ^ (k + 1)"
    using power_int_of_nat [of "2::rat" "k + 1"] by (simp add: add.commute)
  then show ?thesis
    using lo hi by (simp add: e power_int_of_nat)
next
  case False
  then have x1: "x < 1"
    by simp
  define y where "y = 1 / x"
  have y1: "1 < y"
    using assms x1 by (simp add: y_def)
  define m where "m = \<lceil>y\<rceil> - 1"
  have my: "of_int m < y" "y \<le> of_int m + 1"
    using ceiling_correct [of y] by (simp_all add: m_def)
  have "(1::rat) < of_int m + 1"
    using y1 my(2) by linarith
  then have "0 < m"
    by linarith
  then obtain k where k: "bitlen m = int k + 1" "2 ^ k \<le> m" "m < 2 ^ (k + 1)"
    using bitlen_pos_bounds by blast
  have e: "ilog2 x = - (int k + 1)"
    using False k(1) by (simp add: ilog2_def m_def y_def)
  have "(of_int (2 ^ k) :: rat) \<le> of_int m"
    using k(2) by (simp only: of_int_le_iff)
  moreover have "(of_int (2 ^ k) :: rat) = 2 ^ k"
    by simp
  ultimately have a: "(2::rat) ^ k < y"
    using my(1) by linarith
  have "m + 1 \<le> 2 ^ (k + 1)"
    using k(3) by simp
  then have "(of_int (m + 1) :: rat) \<le> of_int (2 ^ (k + 1))"
    by (simp only: of_int_le_iff)
  moreover have "(of_int (2 ^ (k + 1)) :: rat) = 2 ^ (k + 1)"
    by simp
  moreover have "(of_int (m + 1) :: rat) = of_int m + 1"
    by simp
  ultimately have b: "y \<le> (2::rat) ^ (k + 1)"
    using my(2) by linarith
  have xy: "x = 1 / y"
    using assms by (simp add: y_def)
  have "0 < y"
    using y1 by simp
  have lo: "1 / (2::rat) ^ (k + 1) \<le> x"
    unfolding xy using b \<open>0 < y\<close> by (simp add: frac_le)
  have hi: "x < 1 / (2::rat) ^ k"
    unfolding xy using a by (simp add: frac_less2)
  have "(2::rat) powi (- int (k + 1)) = 1 / 2 powi int (k + 1)"
    by (rule power_int_minus_divide)
  moreover have "(2::rat) powi int (k + 1) = 2 ^ (k + 1)"
    by (rule power_int_of_nat)
  moreover have "- int (k + 1) = - (int k + 1)"
    by simp
  ultimately have p1: "(2::rat) powi (- (int k + 1)) = 1 / 2 ^ (k + 1)"
    by (simp only:)
  have "(2::rat) powi (- int k) = 1 / 2 powi int k"
    by (rule power_int_minus_divide)
  moreover have "(2::rat) powi int k = 2 ^ k"
    by (rule power_int_of_nat)
  moreover have "- int k = - (int k + 1) + 1"
    by simp
  ultimately have p2: "(2::rat) powi (- (int k + 1) + 1) = 1 / 2 ^ k"
    by (simp only:)
  show ?thesis
    unfolding e p1 p2 using lo hi by simp
qed

lemma ilog2_unique:
  assumes "2 powi e \<le> x" "x < 2 powi (e + 1)"
  shows "ilog2 x = e"
proof -
  have "(0::rat) < 2 powi e"
    by (simp add: zero_less_power_int)
  then have "0 < x"
    using assms(1) by linarith
  note b = ilog2_bounds [OF this]
  have "\<not> ilog2 x < e"
  proof
    assume "ilog2 x < e"
    then have "(2::rat) powi (ilog2 x + 1) \<le> 2 powi e"
      by (intro power_int_increasing) simp_all
    then show False
      using b assms by linarith
  qed
  moreover have "\<not> e < ilog2 x"
  proof
    assume "e < ilog2 x"
    then have "(2::rat) powi (e + 1) \<le> 2 powi ilog2 x"
      by (intro power_int_increasing) simp_all
    then show False
      using b assms by linarith
  qed
  ultimately show ?thesis
    by linarith
qed

lemma round_even_cases:
  "round_even x = \<lfloor>x\<rfloor> \<and> x - of_int \<lfloor>x\<rfloor> \<le> 1 / 2
   \<or> round_even x = \<lfloor>x\<rfloor> + 1 \<and> 1 / 2 \<le> x - of_int \<lfloor>x\<rfloor>"
proof -
  consider "x - of_int \<lfloor>x\<rfloor> < 1 / 2" | "1 / 2 < x - of_int \<lfloor>x\<rfloor>"
    | "x - of_int \<lfloor>x\<rfloor> = 1 / 2"
    by linarith
  then show ?thesis
  proof cases
    case 1
    then show ?thesis by (simp add: round_even_def Let_def)
  next
    case 2
    then show ?thesis by (simp add: round_even_def Let_def)
  next
    case 3
    then show ?thesis by (simp add: round_even_def Let_def)
  qed
qed

lemma round_even_ge:
  assumes "of_int m - 1 / 2 < x"
  shows "m \<le> round_even x"
proof -
  have f: "x < of_int \<lfloor>x\<rfloor> + 1"
    using floor_correct [of x] by simp
  have s: "(of_int (\<lfloor>x\<rfloor> + 1) :: rat) = of_int \<lfloor>x\<rfloor> + 1"
    by simp
  have "(of_int m :: rat) < of_int (round_even x) + 1"
    using round_even_cases [of x] assms f s by (elim disjE conjE) (simp only:, linarith)+
  then have "(of_int m :: rat) < of_int (round_even x + 1)"
    by simp
  then have "m < round_even x + 1"
    by (simp only: of_int_less_iff)
  then show ?thesis
    by simp
qed

lemma round_even_le:
  assumes "x < of_int m + 1 / 2"
  shows "round_even x \<le> m"
proof -
  have f: "of_int \<lfloor>x\<rfloor> \<le> x"
    by (rule of_int_floor_le)
  have s: "(of_int (\<lfloor>x\<rfloor> + 1) :: rat) = of_int \<lfloor>x\<rfloor> + 1"
    by simp
  have "(of_int (round_even x) :: rat) < of_int m + 1"
    using round_even_cases [of x] assms f s by (elim disjE conjE) (simp only:, linarith)+
  then have "(of_int (round_even x) :: rat) < of_int (m + 1)"
    by simp
  then have "round_even x < m + 1"
    by (simp only: of_int_less_iff)
  then show ?thesis
    by simp
qed

lemma round_even_of_int: "round_even (of_int n) = n"
  by (simp add: round_even_def)

lemma round_binary64_normal:
  assumes "2 powi e \<le> x" "x < 2 powi (e + 1)" "- 1022 \<le> e" "e \<le> 1022"
  shows "round_binary64 x = Some (of_int (round_even (x / 2 powi (e - 52))) * 2 powi (e - 52))"
    and "0 \<le> round_even (x / 2 powi (e - 52))"
    and "round_even (x / 2 powi (e - 52)) \<le> 2 ^ 53"
proof -
  let ?q = "e - 52"
  let ?R = "round_even (x / 2 powi ?q)"
  have pq: "(0::rat) < 2 powi ?q"
    by (simp add: zero_less_power_int)
  have pe: "(0::rat) < 2 powi e"
    by (simp add: zero_less_power_int)
  then have x0: "0 < x"
    using assms(1) by linarith
  have e: "ilog2 x = e"
    using assms(1,2) by (rule ilog2_unique)
  have "0 \<le> x / 2 powi ?q"
    using x0 pq by simp
  then have "of_int 0 - 1 / 2 < x / 2 powi ?q"
    by simp
  then show R0: "0 \<le> ?R"
    by (rule round_even_ge)
  have "(2::rat) powi (?q + 53) = 2 powi ?q * 2 powi 53"
    by (rule power_int_add) simp
  moreover have "?q + 53 = e + 1"
    by simp
  ultimately have split: "(2::rat) powi (e + 1) = 2 powi ?q * 2 powi 53"
    by (simp only:)
  have "x / 2 powi ?q < 2 powi 53"
    using assms(2) pq by (simp add: pos_divide_less_eq mult.commute split)
  moreover have "(of_int (2 ^ 53) :: rat) = 2 powi 53"
    by simp
  ultimately have "x / 2 powi ?q < of_int (2 ^ 53) + 1 / 2"
    by linarith
  then show R1: "?R \<le> 2 ^ 53"
    by (rule round_even_le)
  have "(of_int ?R :: rat) \<le> of_int (2 ^ 53)"
    using R1 by (simp only: of_int_le_iff)
  then have "(of_int ?R :: rat) \<le> 2 powi 53"
    by simp
  then have "(of_int ?R :: rat) * 2 powi ?q \<le> 2 powi 53 * 2 powi ?q"
    using pq by (intro mult_right_mono) simp_all
  also have "\<dots> = 2 powi (e + 1)"
    using split by (simp only: mult.commute)
  also have "\<dots> \<le> 2 powi 1023"
    using assms(4) by (intro power_int_increasing) simp_all
  also have "\<dots> < 2 ^ 1024"
    by simp
  finally have y1: "of_int ?R * 2 powi ?q < (2::rat) ^ 1024" .
  have y0: "0 \<le> of_int ?R * (2::rat) powi ?q"
    using R0 pq by simp
  have q: "max (ilog2 \<bar>x\<bar> - 52) (- 1074) = ?q"
    using x0 e assms(3) by simp
  have "x \<noteq> 0"
    using x0 by simp
  then show "round_binary64 x = Some (of_int ?R * 2 powi ?q)"
    unfolding round_binary64_def Let_def q
    using y0 y1 by (simp add: abs_of_nonneg)
qed

lemma ilog2_range:
  assumes "2 powi lo \<le> x" "x < 2 powi (hi + 1)"
  shows "lo \<le> ilog2 x \<and> ilog2 x \<le> hi"
proof -
  have "(0::rat) < 2 powi lo"
    by (simp add: zero_less_power_int)
  then have "0 < x"
    using assms(1) by linarith
  note b = ilog2_bounds [OF this]
  have "\<not> ilog2 x < lo"
  proof
    assume "ilog2 x < lo"
    then have "(2::rat) powi (ilog2 x + 1) \<le> 2 powi lo"
      by (intro power_int_increasing) simp_all
    then show False
      using b assms by linarith
  qed
  moreover have "\<not> hi < ilog2 x"
  proof
    assume "hi < ilog2 x"
    then have "(2::rat) powi (hi + 1) \<le> 2 powi ilog2 x"
      by (intro power_int_increasing) simp_all
    then show False
      using b assms by linarith
  qed
  ultimately show ?thesis
    by linarith
qed

lemma pow2_below:
  assumes "e \<le> m"
  shows "(2::rat) powi e = 2 powi m / 2 ^ nat (m - e)"
proof -
  have "(2::rat) powi (m - int (nat (m - e))) = 2 powi m / 2 powi int (nat (m - e))"
    by (rule power_int_diff) simp
  moreover have "m - int (nat (m - e)) = e"
    using assms by simp
  moreover have "(2::rat) powi int (nat (m - e)) = 2 ^ nat (m - e)"
    by (rule power_int_of_nat)
  ultimately show ?thesis
    by (simp only:)
qed

lemma round_binary64_exact_int:
  assumes "0 \<le> p" "p < 2 ^ 53"
  shows "round_binary64 (of_int p) = Some (of_int p)"
proof (cases "p = 0")
  case True
  then show ?thesis
    by (simp add: round_binary64_def)
next
  case False
  then have p1: "1 \<le> p"
    using assms(1) by simp
  let ?x = "of_int p :: rat"
  have "(1::rat) \<le> ?x"
    using p1 by simp
  then have lo: "(2::rat) powi 0 \<le> ?x"
    by simp
  have "?x < of_int (2 ^ 53)"
    using assms(2) by (simp only: of_int_less_iff)
  then have hi: "?x < 2 powi (52 + 1)"
    by simp
  define e where "e = ilog2 ?x"
  have er: "0 \<le> e" "e \<le> 52"
    using ilog2_range [OF lo hi] by (simp_all add: e_def)
  have x0: "0 < ?x"
    using p1 by simp
  have b: "2 powi e \<le> ?x" "?x < 2 powi (e + 1)"
    using ilog2_bounds [OF x0] by (simp_all add: e_def)
  define n where "n = nat (52 - e)"
  have q: "(2::rat) powi (e - 52) = 2 powi 0 / 2 ^ nat (0 - (e - 52))"
    by (rule pow2_below) (use er in simp)
  have q': "(2::rat) powi (e - 52) = 1 / 2 ^ n"
    using q by (simp add: n_def)
  have "?x / 2 powi (e - 52) = of_int (p * 2 ^ n)"
    by (simp add: q')
  then have r: "round_even (?x / 2 powi (e - 52)) = p * 2 ^ n"
    by (simp only: round_even_of_int)
  have "round_binary64 ?x = Some (of_int (round_even (?x / 2 powi (e - 52))) * 2 powi (e - 52))"
    by (rule round_binary64_normal(1) [OF b]) (use er in simp_all)
  then have "round_binary64 ?x = Some (of_int (p * 2 ^ n) * 2 powi (e - 52))"
    unfolding r .
  then show ?thesis
    by (simp add: q')
qed

lemma scaled_price_core:
  assumes p: "0 < p" "p < 2 ^ 53"
    and x: "x = of_int p * c" "1 / 2 \<le> x" "x < 2 ^ 51"
    and g1: "\<And>v. x / 2 ^ 53 < v \<Longrightarrow> of_int K - v / 2 < x"
    and g2: "\<And>v. v \<le> x / 2 ^ 52 \<Longrightarrow> x + v / 2 < of_int K + 1"
  shows "scaled_price p c = Inr K"
proof -
  have lo: "(2::rat) powi (- 1) \<le> x"
    using x(2) by simp
  have hi: "x < 2 powi (50 + 1)"
    using x(3) by simp
  define e where "e = ilog2 x"
  have er: "- 1 \<le> e" "e \<le> 50"
    using ilog2_range [OF lo hi] by (simp_all add: e_def)
  have x0: "0 < x"
    using x(2) by linarith
  have b: "2 powi e \<le> x" "x < 2 powi (e + 1)"
    using ilog2_bounds [OF x0] by (simp_all add: e_def)
  define n where "n = nat (52 - e)"
  define v where "v = 1 / (2::rat) ^ n"
  have v0: "0 < v"
    by (simp add: v_def)
  have "(2::rat) powi (e - 52) = 2 powi 0 / 2 ^ nat (0 - (e - 52))"
    by (rule pow2_below) (use er in simp)
  then have q: "(2::rat) powi (e - 52) = v"
    by (simp add: n_def v_def)
  have "(2::rat) powi e = 2 powi 52 / 2 ^ nat (52 - e)"
    by (rule pow2_below) (use er in simp)
  then have pe: "(2::rat) powi e = 2 ^ 52 * v"
    by (simp add: n_def v_def)
  have "(2::rat) powi (e + 1) = 2 powi 53 / 2 ^ nat (53 - (e + 1))"
    by (rule pow2_below) (use er in simp)
  then have pe1: "(2::rat) powi (e + 1) = 2 ^ 53 * v"
    by (simp add: n_def v_def)
  have v1: "v \<le> x / 2 ^ 52"
    using b(1) unfolding pe by simp
  have v2: "x / 2 ^ 53 < v"
    using b(2) unfolding pe1 by simp
  define N where "N = (2::int) ^ n"
  have N0: "0 < N"
    by (simp add: N_def)
  have vN: "v = 1 / of_int N"
    by (simp add: v_def N_def)
  have NN: "(of_int N :: rat) * v = 1"
    using N0 by (simp add: vN)
  define R where "R = round_even (x / 2 powi (e - 52))"
  have rb: "round_binary64 x = Some (of_int R * v)"
    unfolding R_def q [symmetric]
    by (rule round_binary64_normal(1) [OF b]) (use er in simp_all)
  have xs: "x / 2 powi (e - 52) = x * of_int N"
    by (simp add: q vN)
  have "(of_int K - v / 2) * of_int N < x * of_int N"
    using g1 [OF v2] N0 by (intro mult_strict_right_mono) simp_all
  moreover have "(of_int K - v / 2) * of_int N = of_int (K * N) - 1 / 2"
    using NN by (simp add: algebra_simps)
  ultimately have "of_int (K * N) - 1 / 2 < x * of_int N"
    by simp
  then have R1: "K * N \<le> R"
    unfolding R_def xs by (rule round_even_ge)
  have "(x + v / 2) * of_int N < (of_int K + 1) * of_int N"
    using g2 [OF v1] N0 by (intro mult_strict_right_mono) simp_all
  moreover have "(x + v / 2) * of_int N = x * of_int N + 1 / 2"
    using NN by (simp add: algebra_simps)
  moreover have "(of_int K + 1) * (of_int N :: rat) = of_int ((K + 1) * N - 1) + 1"
    by (simp add: algebra_simps)
  ultimately have "x * of_int N < of_int ((K + 1) * N - 1) + 1 / 2"
    by linarith
  then have R2: "R \<le> (K + 1) * N - 1"
    unfolding R_def xs by (rule round_even_le)
  have "R div N = K"
  proof (rule int_div_pos_eq)
    show "R = N * K + (R - K * N)"
      by (simp add: algebra_simps)
    show "0 \<le> R - K * N"
      using R1 by simp
    show "R - K * N < N"
      using R2 by (simp add: algebra_simps)
  qed
  then have fl: "\<lfloor>of_int R * v\<rfloor> = K"
    by (simp add: vN floor_divide_of_int_eq)
  have "0 \<le> R"
    unfolding R_def by (rule round_binary64_normal(2) [OF b]) (use er in simp_all)
  then have "0 \<le> of_int R * v"
    using v0 by simp
  then have "py_int (of_int R * v) = K"
    using fl by (simp add: py_int_def)
  moreover have "round_binary64 (of_int p) = Some (of_int p)"
    using p by (intro round_binary64_exact_int) simp_all
  ultimately show ?thesis
    using rb by (simp add: scaled_price_def x(1) [symmetric])
qed

subsection \<open>The scaled prices and the conversion test\<close>

lemma round_even_near:
  assumes "of_int m - 1 / 2 < x" "x < of_int m + 1 / 2"
  shows "round_even x = m"
  using round_even_ge [OF assms(1)] round_even_le [OF assms(2)] by simp

lemma float_literal_eq:
  assumes "2 powi e \<le> x" "x < 2 powi (e + 1)" "- 1022 \<le> e" "e \<le> 1022"
    and "of_int m - 1 / 2 < x / 2 powi (e - 52)" "x / 2 powi (e - 52) < of_int m + 1 / 2"
  shows "float_literal x = of_int m * 2 powi (e - 52)"
  using round_binary64_normal(1) [OF assms(1-4)] round_even_near [OF assms(5,6)]
  by (simp add: float_literal_def)

lemma float_literal_08: "float_literal (8 / 10) = 3602879701896397 / 2 ^ 52"
  using float_literal_eq [of "- 1" "8 / 10" 7205759403792794]
  by (simp add: power_int_minus_divide)

lemma float_literal_12: "float_literal (12 / 10) = 5404319552844595 / 2 ^ 52"
  using float_literal_eq [of 0 "12 / 10" 5404319552844595]
  by (simp add: power_int_minus_divide)

lemma float_literal_01: "float_literal (1 / 10) = 7205759403792794 / 2 ^ 56"
  using float_literal_eq [of "- 4" "1 / 10" 7205759403792794]
  by (simp add: power_int_minus_divide)

lemma fifths:
  fixes p :: int
  shows "5 * (of_int ((k * p) div 5) :: rat) \<le> of_int k * of_int p"
    and "of_int k * of_int p \<le> 5 * (of_int ((k * p) div 5) :: rat) + 4"
proof -
  have "5 * ((k * p) div 5) \<le> k * p" "k * p \<le> 5 * ((k * p) div 5) + 4"
    by presburger+
  then have "(of_int (5 * ((k * p) div 5)) :: rat) \<le> of_int (k * p)"
    and "(of_int (k * p) :: rat) \<le> of_int (5 * ((k * p) div 5) + 4)"
    by (simp_all only: of_int_le_iff)
  then show "5 * (of_int ((k * p) div 5) :: rat) \<le> of_int k * of_int p"
    and "of_int k * of_int p \<le> 5 * (of_int ((k * p) div 5) :: rat) + 4"
    by simp_all
qed

lemma floor_fifths: "\<lfloor>of_int p * (of_int k / 5) :: rat\<rfloor> = (k * p) div 5"
proof -
  have "(of_int p * (of_int k / 5) :: rat) = of_int (k * p) / of_int 5"
    by simp
  then show ?thesis
    by (simp only: floor_divide_of_int_eq)
qed

lemma reduce_price:
  assumes "0 \<le> p" "p < 2 ^ 50"
  shows "scaled_price p (3602879701896397 / 2 ^ 52) = Inr ((4 * p) div 5)"
proof (cases "p = 0")
  case True
  then show ?thesis
    by (simp add: scaled_price_def round_binary64_def py_int_def)
next
  case False
  then have p1: "1 \<le> p"
    using assms(1) by simp
  define P where "P = (of_int p :: rat)"
  have P1: "1 \<le> P"
    using p1 by (simp add: P_def)
  have "(of_int p :: rat) < of_int (2 ^ 50)"
    using assms(2) by (simp only: of_int_less_iff)
  then have P2: "P < 2 ^ 50"
    by (simp add: P_def)
  define K where "K = (of_int ((4 * p) div 5) :: rat)"
  have K1: "5 * K \<le> 4 * P" and K2: "4 * P \<le> 5 * K + 4"
    using fifths [of 4 p] by (simp_all add: K_def P_def)
  define x where "x = P * (3602879701896397 / 2 ^ 52)"
  show ?thesis
  proof (rule scaled_price_core [where x = x])
    show "0 < p" using p1 by simp
    show "p < 2 ^ 53" using assms(2) by simp
    show "x = of_int p * (3602879701896397 / 2 ^ 52)"
      by (simp add: x_def P_def)
    show "1 / 2 \<le> x"
      using P1 by (simp add: x_def)
    show "x < 2 ^ 51"
      using P2 by (simp add: x_def)
    show "of_int ((4 * p) div 5) - v / 2 < x" if "x / 2 ^ 53 < v" for v
      using that K1 P1 unfolding K_def [symmetric] x_def by simp
    show "x + v / 2 < of_int ((4 * p) div 5) + 1" if "v \<le> x / 2 ^ 52" for v
      using that K2 P2 P1 unfolding K_def [symmetric] x_def by simp
  qed
qed

lemma increase_price:
  assumes "0 \<le> p" "p < 2 ^ 50"
  shows "scaled_price p (5404319552844595 / 2 ^ 52) = Inr ((6 * p) div 5)"
proof (cases "p = 0")
  case True
  then show ?thesis
    by (simp add: scaled_price_def round_binary64_def py_int_def)
next
  case False
  then have p1: "1 \<le> p"
    using assms(1) by simp
  define P where "P = (of_int p :: rat)"
  have P1: "1 \<le> P"
    using p1 by (simp add: P_def)
  have "(of_int p :: rat) < of_int (2 ^ 50)"
    using assms(2) by (simp only: of_int_less_iff)
  then have P2: "P < 2 ^ 50"
    by (simp add: P_def)
  define K where "K = (of_int ((6 * p) div 5) :: rat)"
  have K1: "5 * K \<le> 6 * P" and K2: "6 * P \<le> 5 * K + 4"
    using fifths [of 6 p] by (simp_all add: K_def P_def)
  define x where "x = P * (5404319552844595 / 2 ^ 52)"
  show ?thesis
  proof (rule scaled_price_core [where x = x])
    show "0 < p" using p1 by simp
    show "p < 2 ^ 53" using assms(2) by simp
    show "x = of_int p * (5404319552844595 / 2 ^ 52)"
      by (simp add: x_def P_def)
    show "1 / 2 \<le> x"
      using P1 by (simp add: x_def)
    show "x < 2 ^ 51"
      using P2 by (simp add: x_def)
    show "of_int ((6 * p) div 5) - v / 2 < x" if "x / 2 ^ 53 < v" for v
      using that K1 P1 unfolding K_def [symmetric] x_def by simp
    show "x + v / 2 < of_int ((6 * p) div 5) + 1" if "v \<le> x / 2 ^ 52" for v
      using that K2 P2 P1 unfolding K_def [symmetric] x_def by simp
  qed
qed

lemma rate_test:
  assumes "10 < a" "50 < b" "a < 2 ^ 50" "b < 2 ^ 50"
  shows "\<exists>r. true_div a b = Inr r
           \<and> (7205759403792794 / 2 ^ 56 < r \<longleftrightarrow> (1 / 10 :: rat) < of_int a / of_int b)"
proof -
  define A where "A = (of_int a :: rat)"
  define B where "B = (of_int b :: rat)"
  have A1: "10 < A" and B1: "50 < B"
    using assms(1,2) by (simp_all add: A_def B_def)
  have "(of_int a :: rat) < of_int (2 ^ 50)" "(of_int b :: rat) < of_int (2 ^ 50)"
    using assms(3,4) by (simp_all only: of_int_less_iff)
  then have A2: "A < 2 ^ 50" and B2: "B < 2 ^ 50"
    by (simp_all add: A_def B_def)
  define x where "x = A / B"
  have B0: "0 < B"
    using B1 by linarith
  have xlo: "1 / 2 ^ 47 \<le> x"
    unfolding x_def using A1 B2 B0 by (simp add: pos_le_divide_eq)
  have xhi: "x < 2 ^ 45"
    unfolding x_def using A2 B1 B0 by (simp add: pos_divide_less_eq)
  have lo: "(2::rat) powi (- 47) \<le> x"
    using xlo by (simp add: power_int_minus_divide)
  have hi: "x < 2 powi (44 + 1)"
    using xhi by simp
  define e where "e = ilog2 x"
  have er: "- 47 \<le> e" "e \<le> 44"
    using ilog2_range [OF lo hi] by (simp_all add: e_def)
  have x0: "0 < x"
    using xlo by (simp add: less_le_trans)
  have b: "2 powi e \<le> x" "x < 2 powi (e + 1)"
    using ilog2_bounds [OF x0] by (simp_all add: e_def)
  define R where "R = round_even (x / 2 powi (e - 52))"
  define y where "y = of_int R * (2::rat) powi (e - 52)"
  have rb: "round_binary64 x = Some y"
    unfolding y_def R_def
    by (rule round_binary64_normal(1) [OF b]) (use er in simp_all)
  have R0: "0 \<le> R" and R53: "R \<le> 2 ^ 53"
    unfolding R_def
    by (rule round_binary64_normal(2,3) [OF b]; use er in simp)+
  have pq: "(0::rat) < 2 powi (e - 52)"
    by (simp add: zero_less_power_int)
  have "(2::rat) powi (e - 52 + 52) = 2 powi (e - 52) * 2 powi 52"
    by (rule power_int_add) simp
  then have pe: "(2::rat) powi e = 2 powi (e - 52) * 2 ^ 52"
    by simp
  have "(2::rat) powi (e - 52 + 53) = 2 powi (e - 52) * 2 powi 53"
    by (rule power_int_add) simp
  moreover have "e - 52 + 53 = e + 1"
    by simp
  ultimately have pe1: "(2::rat) powi (e + 1) = 2 powi (e - 52) * 2 ^ 53"
    by (simp only: power_int_numeral)
  have int_rat: "(1 / 10 < x) = (B < 10 * A)"
    unfolding x_def using B0 by (simp add: pos_less_divide_eq mult.commute)
  have td: "true_div a b = Inr y"
    using rb assms(2) by (simp add: true_div_def x_def A_def B_def)
  consider "e \<le> - 5" | "- 3 \<le> e" | "e = - 4"
    by linarith
  then have "7205759403792794 / 2 ^ 56 < y \<longleftrightarrow> 1 / 10 < x"
  proof cases
    case 1
    then have "(2::rat) powi (e + 1) \<le> 2 powi (- 4)"
      by (intro power_int_increasing) simp_all
    then have le: "(2::rat) powi (e + 1) \<le> 1 / 16"
      by (simp add: power_int_minus_divide)
    have "(of_int R :: rat) \<le> of_int (2 ^ 53)"
      using R53 by (simp only: of_int_le_iff)
    then have "(of_int R :: rat) \<le> 2 ^ 53"
      by simp
    then have "y \<le> 2 ^ 53 * 2 powi (e - 52)"
      unfolding y_def using pq by (intro mult_right_mono) simp_all
    then have "y \<le> 1 / 16"
      using le pe1 by (simp add: mult.commute)
    moreover have "x < 1 / 16"
      using b(2) le by linarith
    ultimately show ?thesis
      by simp
  next
    case 2
    then have "(2::rat) powi (- 3) \<le> 2 powi e"
      by (intro power_int_increasing) simp_all
    then have ge: "1 / 8 \<le> (2::rat) powi e"
      by (simp add: power_int_minus_divide)
    have "2 ^ 52 \<le> x / 2 powi (e - 52)"
      using b(1) pq unfolding pe by (simp add: pos_le_divide_eq mult.commute)
    moreover have "(of_int (2 ^ 52) :: rat) = 2 ^ 52"
      by simp
    ultimately have "of_int (2 ^ 52) - 1 / 2 < x / 2 powi (e - 52)"
      by linarith
    then have "2 ^ 52 \<le> R"
      unfolding R_def by (rule round_even_ge)
    then have "(of_int (2 ^ 52) :: rat) \<le> of_int R"
      by (simp only: of_int_le_iff)
    then have "(2 ^ 52 :: rat) \<le> of_int R"
      by simp
    then have "2 ^ 52 * 2 powi (e - 52) \<le> y"
      unfolding y_def using pq by (intro mult_right_mono) simp_all
    then have "1 / 8 \<le> y"
      using ge pe by (simp add: mult.commute)
    moreover have "1 / 8 \<le> x"
      using b(1) ge by linarith
    ultimately show ?thesis
      by simp
  next
    case 3
    have q: "(2::rat) powi (e - 52) = 1 / 2 ^ 56"
      by (simp add: 3 power_int_minus_divide)
    have xs: "x / 2 powi (e - 52) = x * 2 ^ 56"
      by (simp add: q)
    have yR: "y = of_int R / 2 ^ 56"
      by (simp add: y_def q)
    show ?thesis
    proof (cases "1 / 10 < x")
      case True
      then have "B < 10 * A"
        using int_rat by blast
      then have "b < 10 * a"
        by (simp add: A_def B_def flip: of_int_less_iff)
      then have "b + 1 \<le> 10 * a"
        by simp
      then have "(of_int (b + 1) :: rat) \<le> of_int (10 * a)"
        by (simp only: of_int_le_iff)
      then have "B + 1 \<le> 10 * A"
        by (simp add: A_def B_def)
      then have "(7205759403792795 - 1 / 2) * B < A * 2 ^ 56"
        using B2 B0 by simp
      then have "7205759403792795 - 1 / 2 < x * 2 ^ 56"
        unfolding x_def using B0 by (simp add: pos_less_divide_eq)
      then have "of_int 7205759403792795 - 1 / 2 < x / 2 powi (e - 52)"
        by (simp add: xs)
      then have "7205759403792795 \<le> R"
        unfolding R_def by (rule round_even_ge)
      then have "(of_int 7205759403792795 :: rat) \<le> of_int R"
        by (simp only: of_int_le_iff)
      then have "7205759403792794 / 2 ^ 56 < y"
        by (simp add: yR)
      then show ?thesis
        using True by simp
    next
      case False
      then have "x \<le> 1 / 10"
        by simp
      then have "x * 2 ^ 56 < 7205759403792794 + 1 / 2"
        by simp
      then have "x / 2 powi (e - 52) < of_int 7205759403792794 + 1 / 2"
        by (simp add: xs)
      then have "R \<le> 7205759403792794"
        unfolding R_def by (rule round_even_le)
      then have "(of_int R :: rat) \<le> of_int 7205759403792794"
        by (simp only: of_int_le_iff)
      then have "\<not> 7205759403792794 / 2 ^ 56 < y"
        by (simp add: yR)
      then show ?thesis
        using False by simp
    qed
  qed
  then show ?thesis
    using td by (simp add: x_def A_def B_def)
qed

lemma round_binary64_eq:
  assumes "2 powi e \<le> x" "x < 2 powi (e + 1)" "- 1022 \<le> e" "e \<le> 1022"
    and "of_int m - 1 / 2 < x / 2 powi (e - 52)" "x / 2 powi (e - 52) < of_int m + 1 / 2"
  shows "round_binary64 x = Some (of_int m * 2 powi (e - 52))"
  using round_binary64_normal(1) [OF assms(1-4)] round_even_near [OF assms(5,6)]
  by simp

lemma floor_rat_real_08: "\<lfloor>real_of_int p * 0.8\<rfloor> = (4 * p) div 5"
proof -
  have "real_of_int p * 0.8 = of_int (4 * p) / of_int 5"
    by simp
  then show ?thesis
    by (simp only: floor_divide_of_int_eq)
qed

lemma floor_rat_real_12: "\<lfloor>real_of_int p * 1.2\<rfloor> = (6 * p) div 5"
proof -
  have "real_of_int p * 1.2 = of_int (6 * p) / of_int 5"
    by simp
  then show ?thesis
    by (simp only: floor_divide_of_int_eq)
qed

lemma conversion_rate_real:
  "((1 / 10 :: rat) < of_int a / of_int b) = (real_of_int a / real_of_int b > 0.10)"
proof -
  have "(of_rat (of_int a / of_int b :: rat) :: real) = real_of_int a / real_of_int b"
    by (simp add: of_rat_divide)
  moreover have "(of_rat (1 / 10 :: rat) :: real) = 0.10"
    by (simp add: of_rat_divide)
  ultimately show ?thesis
    by (metis of_rat_less)
qed

subsection \<open>The rule and its range\<close>

text \<open>
  For a price below \<open>2 ^ 50\<close> and counts below \<open>2 ^ 50\<close> the floats decide as the reals do
  and the truncated product is the floor of the exact one.
\<close>

lemma optimize_price_in_range:
  assumes "0 \<le> p" "p < 2 ^ 50" "views < 2 ^ 50" "purchases < 2 ^ 50"
  shows "optimize_price views purchases p = Inr (price_rule_spec views purchases p)"
proof -
  have red: "scaled_price p (float_literal (8 / 10)) = Inr \<lfloor>real_of_int p * 0.8\<rfloor>"
    using reduce_price [OF assms(1,2)] by (simp only: float_literal_08 floor_rat_real_08)
  have inc: "scaled_price p (float_literal (12 / 10)) = Inr \<lfloor>real_of_int p * 1.2\<rfloor>"
    using increase_price [OF assms(1,2)] by (simp only: float_literal_12 floor_rat_real_12)
  show ?thesis
  proof (cases "100 < views \<and> purchases < 5")
    case True
    then show ?thesis
      unfolding optimize_price_def price_rule_spec_def red by simp
  next
    case first: False
    show ?thesis
    proof (cases "50 < views \<and> 10 < purchases")
      case True
      then obtain r where r: "true_div purchases views = Inr r"
        and t: "(7205759403792794 / 2 ^ 56 < r)
                  = (real_of_int purchases / real_of_int views > 0.10)"
        using rate_test [of purchases views] assms(3,4) conversion_rate_real by blast
      have "(float_literal (1 / 10) < r) = (real_of_int purchases / real_of_int views > 0.10)"
        using t by (simp only: float_literal_01)
      then show ?thesis
        using first True unfolding optimize_price_def price_rule_spec_def inc r by simp
    next
      case False
      then show ?thesis
        using first by (auto simp: optimize_price_def price_rule_spec_def)
    qed
  qed
qed

text \<open>
  A price of \<open>2 ^ 1024\<close> is too large for a float: the conversion raises, inside the
  \<^verbatim>\<open>try\<close> of \<^verbatim>\<open>_optimize_product_prices\<close>.
\<close>

lemma round_even_numeral: "round_even (numeral k) = numeral k"
  using round_even_of_int [of "numeral k"] by simp

lemma overflow_example:
  "optimize_price 150 2 (2 ^ 1024) = Inl (Raised OverflowError ''int too large to convert to float'')"
proof -
  have "ilog2 (2 ^ 1024) = 1024"
    by (rule ilog2_unique) simp_all
  then have "round_binary64 (of_int (2 ^ 1024)) = None"
    by (simp add: round_binary64_def round_even_numeral)
  then show ?thesis
    unfolding optimize_price_def scaled_price_def by simp
qed

text \<open>
  The claim C1 as stated, for every price \<open>p \<ge> 0\<close>, fails on the listing with 150 views,
  2 purchases and the price 5629499534213122: the product \<^verbatim>\<open>current_price * 0.8\<close> is rounded
  to a float before \<^verbatim>\<open>int\<close> truncates it, and the code updates the price to
  4503599627370498, where the floor of \<open>p * 0.8\<close> is 4503599627370497.
\<close>

theorem float_rounding_counterexample:
  "optimize_price 150 2 5629499534213122 = Inr (Reduce 4503599627370498)
   \<and> price_rule_spec 150 2 5629499534213122 = Reduce 4503599627370497"
proof -
  have a: "round_binary64 (of_int 5629499534213122) = Some (of_int 5629499534213122)"
    by (rule round_binary64_exact_int) simp_all
  have "round_binary64 (5629499534213122 * (3602879701896397 / 2 ^ 52))
          = Some (of_int 4503599627370498 * 2 powi (52 - 52))"
    by (rule round_binary64_eq) simp_all
  then have "scaled_price 5629499534213122 (3602879701896397 / 2 ^ 52) = Inr 4503599627370498"
    using a by (simp add: scaled_price_def py_int_def)
  then have "optimize_price 150 2 5629499534213122 = Inr (Reduce 4503599627370498)"
    unfolding optimize_price_def float_literal_08 by simp
  moreover have "price_rule_spec 150 2 5629499534213122 = Reduce 4503599627370497"
    by (simp add: price_rule_spec_def floor_rat_real_08)
  ultimately show ?thesis
    by simp
qed

text \<open>
  Claim C1, as amended. For a listing with analytics values \<open>views\<close> and \<open>purchases\<close> below
  \<open>2 ^ 50\<close> and a current price \<open>0 \<le> p < 2 ^ 50\<close>, the optimizer raises nothing and its
  decision is the documented rule, in the documented order: \<open>views > 100\<close> and
  \<open>purchases < 5\<close> gives an update to \<open>floor (p * 0.8)\<close>; otherwise \<open>views > 50\<close>,
  \<open>purchases > 10\<close> and \<open>purchases / views > 0.10\<close> gives an update to \<open>floor (p * 1.2)\<close>;
  otherwise the price is left alone. Exactly one of the three outcomes applies: the price
  is reduced if and only if the first condition holds, increased if and only if the second
  holds, and left alone if and only if neither holds.
\<close>

theorem optimize_price_rule:
  assumes "0 \<le> p" "p < 2 ^ 50" "views < 2 ^ 50" "purchases < 2 ^ 50"
  shows "optimize_price views purchases p = Inr (price_rule_spec views purchases p)
    \<and> ((\<exists>n. optimize_price views purchases p = Inr (Reduce n))
          \<longleftrightarrow> views > 100 \<and> purchases < 5)
    \<and> ((\<exists>n. optimize_price views purchases p = Inr (Increase n))
          \<longleftrightarrow> views > 50 \<and> purchases > 10
              \<and> real_of_int purchases / real_of_int views > 0.10)
    \<and> (optimize_price views purchases p = Inr NoChange
          \<longleftrightarrow> \<not> (views > 100 \<and> purchases < 5)
              \<and> \<not> (views > 50 \<and> purchases > 10
                     \<and> real_of_int purchases / real_of_int views > 0.10))"
proof -
  have eq: "optimize_price views purchases p = Inr (price_rule_spec views purchases p)"
    using assms by (rule optimize_price_in_range)
  show ?thesis
    unfolding eq by (auto simp: price_rule_spec_def)
qed

theorem optimize_price_rule_witness:
  "(0::int) \<le> 1000 \<and> (1000::int) < 2 ^ 50 \<and> (150::int) < 2 ^ 50 \<and> (2::int) < 2 ^ 50
   \<and> optimize_price 150 2 1000 = Inr (Reduce 800)
   \<and> optimize_price 150 30 1001 = Inr (Increase 1201)
   \<and> optimize_price 150 15 1000 = Inr NoChange"
  using optimize_price_rule [of 1000 150 2] optimize_price_rule [of 1001 150 30]
    optimize_price_rule [of 1000 150 15]
  by (simp add: price_rule_spec_def)

section \<open>The Marketplace Client, verified\<close>

subsection \<open>Dicts\<close>

lemma map_of_dict_set: "map_of (dict_set d k v) = (map_of d)(k \<mapsto> v)"
  by (induction d) (auto simp: fun_eq_iff)

lemma map_of_dict_update_other:
  "k \<notin> fst ` set e \<Longrightarrow> map_of (dict_update d e) k = map_of d k"
  unfolding dict_update_def
  by (induction e arbitrary: d) (auto simp: map_of_dict_set)

lemma update_metadata_other:
  "k \<noteq> ''metadata'' \<Longrightarrow> map_of (update_metadata w e) k = map_of w k"
  by (simp add: update_metadata_def map_of_dict_set split: json.splits)

lemma update_metadata_meta:
  "map_of w ''metadata'' = Some (JObj m) \<Longrightarrow>
   map_of (update_metadata w e) ''metadata'' = Some (JObj (dict_update m e))"
  by (simp add: update_metadata_def dget_def map_of_dict_set)


lemma field_is_str: "field_is d k is_str \<Longrightarrow> \<exists>s. dget d k (JStr n) = JStr s"
  by (auto simp: field_is_def is_str_def dget_def split: option.splits json.splits)

lemma field_is_list: "field_is d k is_list \<Longrightarrow> \<exists>xs. dget d k (JList n) = JList xs"
  by (auto simp: field_is_def is_list_def dget_def split: option.splits json.splits)

subsection \<open>The payload of a well-typed document\<close>

lemma get_category_str: "get_category (JStr t) = Inr (category_of t)"
  by (simp add: category_of_def)

lemma format_typed:
  assumes "dget d ''type'' (JStr ''digital_product'') = JStr t"
    and "dget d ''suggested_price'' (JInt 2997) = JInt p"
    and "dget d ''chapters'' (JList []) = JList cs"
  shows "\<exists>w m. format_for_whop_api (JObj d) = Inr (JObj w)
           \<and> map_of w ''price'' = Some (JInt (p * 100))
           \<and> map_of w ''stock'' = Some (JInt (- 1))
           \<and> map_of w ''category'' = Some (JStr (category_of t))
           \<and> map_of w ''metadata'' = Some (JObj m)
           \<and> map_of m ''auto_generated'' = Some (JBool True)"
proof -
  define b where "b = base_product d (JStr t) (JInt (p * 100)) (category_of t)"
  have b: "map_of b ''price'' = Some (JInt (p * 100))" "map_of b ''stock'' = Some (JInt (- 1))"
    "map_of b ''category'' = Some (JStr (category_of t))"
    "map_of b ''metadata'' = Some (JObj (base_metadata d (JStr t)))"
    by (simp_all add: b_def base_product_def)
  have m: "map_of (base_metadata d (JStr t)) ''auto_generated'' = Some (JBool True)"
    by (simp add: base_metadata_def)
  have upd: "map_of (update_metadata b e) ''price'' = Some (JInt (p * 100))
         \<and> map_of (update_metadata b e) ''stock'' = Some (JInt (- 1))
         \<and> map_of (update_metadata b e) ''category'' = Some (JStr (category_of t))
         \<and> (\<exists>m. map_of (update_metadata b e) ''metadata'' = Some (JObj m)
                 \<and> map_of m ''auto_generated'' = Some (JBool True))"
    if "''auto_generated'' \<notin> fst ` set e" for e
    using that b m
    by (simp add: update_metadata_other update_metadata_meta map_of_dict_update_other)
  have f: "format_for_whop_api (JObj d) =
     Inr (JObj (if t = ''ebook'' then update_metadata b
                    [(''chapters'', JInt (int (length cs))),
                     (''formats'', JList [JStr ''PDF'', JStr ''EPUB'', JStr ''DOCX''])]
                else if t = ''notion_template'' then update_metadata b
                    [(''template_type'', dget d ''template_type'' JNull),
                     (''use_case'', dget d ''use_case'' JNull)]
                else if t = ''digital_planner'' then update_metadata b
                    [(''planner_type'', dget d ''planner_type'' JNull),
                     (''period'', dget d ''period'' JNull),
                     (''formats'', dget d ''formats'' (JList []))]
                else b))"
    by (simp add: format_for_whop_api_def assms Let_def b_def category_of_def)
  show ?thesis
    unfolding f using b m by (auto simp: upd)
qed


text \<open>
  Claim C6, as amended. For every well-typed product document with an integer
  \<^verbatim>\<open>suggested_price\<close>, the payload \<^verbatim>\<open>create_product\<close> sends has the price multiplied by
  100, stock \<open>-1\<close> (unlimited), a metadata dict with \<^verbatim>\<open>auto_generated\<close> true, and the
  category the table gives the document's type. The lookup is total on type tags: the
  four document types and the table's two further keys \<^verbatim>\<open>course\<close> and \<^verbatim>\<open>membership\<close> have
  their category, and every tag that is not a key of the table has \<^verbatim>\<open>other\<close>.
\<close>

theorem format_payload:
  assumes "well_typed_document (JObj d)"
    and "map_of d ''suggested_price'' = Some (JInt p)"
  shows "\<exists>w m t. format_for_whop_api (JObj d) = Inr (JObj w)
           \<and> dget d ''type'' (JStr ''digital_product'') = JStr t
           \<and> map_of w ''price'' = Some (JInt (p * 100))
           \<and> map_of w ''stock'' = Some (JInt (- 1))
           \<and> map_of w ''metadata'' = Some (JObj m)
           \<and> map_of m ''auto_generated'' = Some (JBool True)
           \<and> map_of w ''category'' = Some (JStr (category_of t))
           \<and> get_category (JStr u) = Inr (category_of u)
           \<and> category_of ''ebook'' = ''education''
           \<and> category_of ''notion_template'' = ''productivity''
           \<and> category_of ''digital_planner'' = ''productivity''
           \<and> category_of ''email_templates'' = ''marketing''
           \<and> category_of ''course'' = ''education''
           \<and> category_of ''membership'' = ''community''
           \<and> (u \<notin> fst ` set category_mapping \<longrightarrow> category_of u = ''other'')"
proof -
  from assms(1) have ty: "field_is d ''type'' is_str" and ch: "field_is d ''chapters'' is_list"
    by (auto simp: well_typed_document_def)
  from field_is_str [OF ty] obtain t where t: "dget d ''type'' (JStr ''digital_product'') = JStr t"
    by blast
  from field_is_list [OF ch] obtain cs where cs: "dget d ''chapters'' (JList []) = JList cs"
    by blast
  have p: "dget d ''suggested_price'' (JInt 2997) = JInt p"
    using assms(2) by (simp add: dget_def)
  have table: "category_of ''ebook'' = ''education''"
    "category_of ''notion_template'' = ''productivity''"
    "category_of ''digital_planner'' = ''productivity''"
    "category_of ''email_templates'' = ''marketing''"
    "category_of ''course'' = ''education''"
    "category_of ''membership'' = ''community''"
    by (simp_all add: category_of_def category_mapping_def)
  have other: "u \<notin> fst ` set category_mapping \<longrightarrow> category_of u = ''other''"
    by (simp add: category_of_def category_mapping_def)
  from format_typed [OF t p cs] obtain w m where
    w: "format_for_whop_api (JObj d) = Inr (JObj w)"
      "map_of w ''price'' = Some (JInt (p * 100))"
      "map_of w ''stock'' = Some (JInt (- 1))"
      "map_of w ''category'' = Some (JStr (category_of t))"
      "map_of w ''metadata'' = Some (JObj m)"
      "map_of m ''auto_generated'' = Some (JBool True)"
    by blast
  show ?thesis
    apply (rule exI [of _ w])
    apply (rule exI [of _ m])
    apply (rule exI [of _ t])
    apply (intro conjI)
    apply (fact w t table other get_category_str)+
    done
qed

theorem format_payload_witness:
  "well_typed_document
     (JObj [(''type'', JStr ''ebook''), (''title'', JStr ''T''), (''suggested_price'', JInt 15)])
   \<and> (\<exists>w m. format_for_whop_api
          (JObj [(''type'', JStr ''ebook''), (''title'', JStr ''T''), (''suggested_price'', JInt 15)])
          = Inr (JObj w)
        \<and> map_of w ''price'' = Some (JInt 1500)
        \<and> map_of w ''stock'' = Some (JInt (- 1))
        \<and> map_of w ''metadata'' = Some (JObj m)
        \<and> map_of m ''auto_generated'' = Some (JBool True)
        \<and> map_of w ''category'' = Some (JStr ''education''))
   \<and> get_category (JStr ''video'') = Inr ''other''"
proof -
  let ?d = "[(''type'', JStr ''ebook''), (''title'', JStr ''T''), (''suggested_price'', JInt 15)]"
  have wt: "well_typed_document (JObj ?d)"
    by (simp add: well_typed_document_def field_is_def is_str_def is_int_def)
  have pr: "map_of ?d ''suggested_price'' = Some (JInt 15)"
    by simp
  have ty: "dget ?d ''type'' (JStr ''digital_product'') = JStr ''ebook''"
    by (simp add: dget_def)
  have nk: "''video'' \<notin> fst ` set category_mapping"
    by (simp add: category_mapping_def)
  from format_payload [OF wt pr, of "''video''"] ty nk wt show ?thesis
    by auto
qed

text \<open>
  The claim as stated names four known types and sends every other type to \<^verbatim>\<open>other\<close>;
  the table knows \<^verbatim>\<open>course\<close> as well.
\<close>

theorem unknown_type_counterexample:
  "''course'' \<notin> set document_types
   \<and> get_category (JStr ''course'') = Inr ''education''
   \<and> get_category (JStr ''course'') \<noteq> Inr ''other''"
  by (simp add: document_types_def category_mapping_def)

subsection \<open>The boundary of the client\<close>


lemma log_action_other: "f \<noteq> log_file c \<Longrightarrow> log_action c a s dat L f = L f"
  by (simp add: log_action_def)

lemma create_product_logs_once:
  assumes "create_product c product_data outcome L = (Inr r, L')"
  shows "\<exists>st dat. L' = log_action c ''create_product'' st dat L"
  using assms
  by (auto simp: create_product_def log_create_exception_def
      split: json.splits sum.splits if_splits)

lemma update_product_pricing_log:
  "snd (update_product_pricing c pid n outcome L) =
     (if fst (update_product_pricing c pid n outcome L)
      then log_action c ''update_price'' ''success'' [(''product_id'', pid), (''new_price'', JInt n)] L
      else L)"
  by (simp add: update_product_pricing_def split: sum.splits)







text \<open>
  Claim C4 at a failing input. A price update answered with status 500, and one whose
  transport raises, return \<^verbatim>\<open>False\<close> and leave every log file as it was: the branch that
  fails has no \<^verbatim>\<open>_log_action\<close>, where the failing branches of \<^verbatim>\<open>create_product\<close> have one.
\<close>

theorem update_failure_not_logged:
  "update_product_pricing clock0 (JStr ''p_1'') 800 (Inr server_error) no_logs = (False, no_logs)
   \<and> update_product_pricing clock0 (JStr ''p_1'') 800
        (Inl (Raised RequestException ''timed out'')) no_logs = (False, no_logs)"
  by (simp add: update_product_pricing_def server_error_def)

section \<open>The renderers, verified\<close>

subsection \<open>Loops that do not raise\<close>

lemma bind_exn_Inr [simp]: "bind_exn (Inr x) f = f x"
  by (simp add: bind_exn_def)

lemma bind_exn_Inl [simp]: "bind_exn (Inl e) f = Inl e"
  by (simp add: bind_exn_def)

lemma map_exn_Inr:
  "(\<And>x. x \<in> set xs \<Longrightarrow> f x = Inr (g x)) \<Longrightarrow> map_exn f xs = Inr (map g xs)"
  by (induction xs) simp_all

lemma fold_exn_append:
  "(\<And>s x. x \<in> set xs \<Longrightarrow> f s x = Inr (s @ g x)) \<Longrightarrow>
   fold_exn f xs s = Inr (s @ concat (map g xs))"
  by (induction xs arbitrary: s) simp_all

lemma enumerate_map_snd:
  "enumerate n (map f xs) = map (\<lambda>ix. (fst ix, f (snd ix))) (enumerate n xs)"
  by (induction xs arbitrary: n) simp_all

lemma in_enumerate_snd: "ix \<in> set (enumerate n xs) \<Longrightarrow> snd ix \<in> set xs"
  by (induction xs arbitrary: n) auto

lemma chapter_fields_getitem:
  assumes "chapter_fields ch = Some tc"
  shows "py_getitem ch ''title'' = Inr (JStr (fst tc))"
    and "py_getitem ch ''content'' = Inr (JStr (snd tc))"
  using assms
  by (auto simp: chapter_fields_def split: json.splits option.splits)

lemma ebook_viewD:
  assumes "ebook_view d = Some (title, subtitle, tcs)"
  shows "\<exists>chs. dget d ''title'' (JStr ''Untitled Ebook'') = JStr title
     \<and> dget d ''subtitle'' (JStr '''') = JStr subtitle
     \<and> dget d ''chapters'' (JList []) = JList chs
     \<and> (\<forall>ch \<in> set chs. chapter_fields ch \<noteq> None)
     \<and> tcs = map (\<lambda>ch. the (chapter_fields ch)) chs"
  using assms
  by (auto simp: ebook_view_def list_all_iff split: json.splits if_splits)


lemma map_enumerate_view:
  "map (\<lambda>ic. G (fst ic) (the (chapter_fields (snd ic)))) (enumerate n chs)
   = map (\<lambda>ic. G (fst ic) (snd ic)) (enumerate n (map (\<lambda>ch. the (chapter_fields ch)) chs))"
  by (simp add: enumerate_map_snd comp_def)

lemma chapter_in_enumerate:
  assumes "\<forall>ch \<in> set chs. chapter_fields ch \<noteq> None" and "ic \<in> set (enumerate n chs)"
  shows "py_getitem (snd ic) ''title'' = Inr (JStr (fst (the (chapter_fields (snd ic)))))"
    and "py_getitem (snd ic) ''content'' = Inr (JStr (snd (the (chapter_fields (snd ic)))))"
proof -
  from assms have "chapter_fields (snd ic) \<noteq> None"
    using in_enumerate_snd by blast
  then obtain tc where "chapter_fields (snd ic) = Some tc" by blast
  then show "py_getitem (snd ic) ''title'' = Inr (JStr (fst (the (chapter_fields (snd ic)))))"
    and "py_getitem (snd ic) ''content'' = Inr (JStr (snd (the (chapter_fields (snd ic)))))"
    using chapter_fields_getitem by simp_all
qed

lemma join_Cons2: "join sep (x # y # ys) = x @ sep @ join sep (y # ys)"
  by (simp add: join_def)

lemma join_single: "join sep [x] = x"
  by (simp add: join_def)

lemma join_append:
  "xs \<noteq> [] \<Longrightarrow> ys \<noteq> [] \<Longrightarrow> join sep (xs @ ys) = join sep xs @ sep @ join sep ys"
proof (induction xs)
  case Nil
  then show ?case by simp
next
  case (Cons x xs)
  show ?case
  proof (cases xs)
    case Nil
    with Cons.prems show ?thesis
      by (cases ys) (simp_all add: join_def)
  next
    case (Cons x' xs')
    with Cons.IH Cons.prems show ?thesis
      by (simp add: join_Cons2)
  qed
qed

lemma html_page_layout:
  \<open>html_page title (if subtitle = [] then [] else ''<p class="subtitle">'' @ subtitle @ ''</p>'') toc body
   = front_matter html_format title subtitle @ toc @ middle html_format @ body
       @ back_matter html_format\<close>
  unfolding html_page_def html_format_def html_front_lines_def
  by (simp add: join_append html_style_def html_footer_def join_Cons2 join_single)

subsection \<open>Each renderer produces its layout\<close>

lemma toc_view:
  "map (\<lambda>ic. toc_entry fmt (fst ic) (fst (the (chapter_fields (snd ic))))) (enumerate 0 chs)
   = map (\<lambda>ic. toc_entry fmt (fst ic) (fst (snd ic)))
       (enumerate 0 (map (\<lambda>ch. the (chapter_fields ch)) chs))"
  by (rule map_enumerate_view [where G = "\<lambda>i tc. toc_entry fmt i (fst tc)"])

lemma body_view:
  "map (\<lambda>ic. heading fmt (fst ic) (fst (the (chapter_fields (snd ic))))
          @ snd (the (chapter_fields (snd ic))) @ block_end fmt) (enumerate 0 chs)
   = map (\<lambda>ic. heading fmt (fst ic) (fst (snd ic)) @ snd (snd ic) @ block_end fmt)
       (enumerate 0 (map (\<lambda>ch. the (chapter_fields ch)) chs))"
  by (rule map_enumerate_view [where G = "\<lambda>i tc. heading fmt i (fst tc) @ snd tc @ block_end fmt"])

lemma text_layout:
  assumes "ebook_view d = Some (title, subtitle, tcs)"
  shows "generate_ebook_text d = Inr (ebook_layout text_format title subtitle tcs)"
proof -
  from ebook_viewD [OF assms] obtain chs where
    t: "dget d ''title'' (JStr ''Untitled Ebook'') = JStr title"
    and s: "dget d ''subtitle'' (JStr '''') = JStr subtitle"
    and c: "dget d ''chapters'' (JList []) = JList chs"
    and ok: "\<forall>ch \<in> set chs. chapter_fields ch \<noteq> None"
    and tcs: "tcs = map (\<lambda>ch. the (chapter_fields ch)) chs"
    by blast
  have toc: "fold_exn text_toc_step (enumerate 0 chs) acc =
      Inr (acc @ concat (map (\<lambda>ic. toc_entry text_format (fst ic) (fst (snd ic))) (enumerate 0 tcs)))"
    for acc
    unfolding tcs toc_view [symmetric]
    by (rule fold_exn_append)
      (simp add: text_toc_step_def chapter_in_enumerate [OF ok] text_format_def py_str_def)
  have body: "fold_exn text_chapter_step (enumerate 0 chs) acc =
      Inr (acc @ concat (map (\<lambda>ic. heading text_format (fst ic) (fst (snd ic)) @ snd (snd ic)
              @ block_end text_format) (enumerate 0 tcs)))"
    for acc
    unfolding tcs body_view [symmetric]
    by (rule fold_exn_append)
      (simp add: text_chapter_step_def chapter_in_enumerate [OF ok] text_format_def py_str_def)
  show ?thesis
    by (simp add: generate_ebook_text_def t s c Let_def toc body ebook_layout_def py_str_def)
      (simp add: text_format_def)
qed


lemma md_layout:
  assumes "ebook_view d = Some (title, subtitle, tcs)"
  shows "generate_ebook_markdown d = Inr (ebook_layout md_format title subtitle tcs)"
proof -
  from ebook_viewD [OF assms] obtain chs where
    t: "dget d ''title'' (JStr ''Untitled Ebook'') = JStr title"
    and s: "dget d ''subtitle'' (JStr '''') = JStr subtitle"
    and c: "dget d ''chapters'' (JList []) = JList chs"
    and ok: "\<forall>ch \<in> set chs. chapter_fields ch \<noteq> None"
    and tcs: "tcs = map (\<lambda>ch. the (chapter_fields ch)) chs"
    by blast
  have toc: "fold_exn md_toc_step (enumerate 0 chs) acc =
      Inr (acc @ concat (map (\<lambda>ic. toc_entry md_format (fst ic) (fst (snd ic))) (enumerate 0 tcs)))"
    for acc
    unfolding tcs toc_view [symmetric]
    by (rule fold_exn_append)
      (simp add: md_toc_step_def chapter_in_enumerate [OF ok] md_format_def py_str_def)
  have body: "fold_exn md_chapter_step (enumerate 0 chs) acc =
      Inr (acc @ concat (map (\<lambda>ic. heading md_format (fst ic) (fst (snd ic)) @ snd (snd ic)
              @ block_end md_format) (enumerate 0 tcs)))"
    for acc
    unfolding tcs body_view [symmetric]
    by (rule fold_exn_append)
      (simp add: md_chapter_step_def chapter_in_enumerate [OF ok] md_format_def py_str_def)
  show ?thesis
    by (simp add: generate_ebook_markdown_def t s c Let_def toc body ebook_layout_def py_str_def)
      (simp add: md_format_def)
qed

lemma html_layout:
  assumes "ebook_view d = Some (title, subtitle, tcs)"
  shows "generate_ebook_html d = Inr (ebook_layout html_format title subtitle tcs)"
proof -
  from ebook_viewD [OF assms] obtain chs where
    t: "dget d ''title'' (JStr ''Untitled Ebook'') = JStr title"
    and s: "dget d ''subtitle'' (JStr '''') = JStr subtitle"
    and c: "dget d ''chapters'' (JList []) = JList chs"
    and ok: "\<forall>ch \<in> set chs. chapter_fields ch \<noteq> None"
    and tcs: "tcs = map (\<lambda>ch. the (chapter_fields ch)) chs"
    by blast
  have toc: "map_exn html_toc_item (enumerate 0 chs) =
      Inr (map (\<lambda>ic. toc_entry html_format (fst ic) (fst (snd ic))) (enumerate 0 tcs))"
    unfolding tcs toc_view [symmetric]
    by (rule map_exn_Inr)
      (simp add: html_toc_item_def chapter_in_enumerate [OF ok] html_format_def py_str_def)
  have body: "map_exn html_chapter (enumerate 0 chs) =
      Inr (map (\<lambda>ic. heading html_format (fst ic) (fst (snd ic)) @ snd (snd ic)
              @ block_end html_format) (enumerate 0 tcs))"
    unfolding tcs body_view [symmetric]
    by (rule map_exn_Inr)
      (simp add: html_chapter_def chapter_in_enumerate [OF ok] html_format_def py_str_def)
  have \<open>generate_ebook_html d =
      Inr (html_page title
             (if subtitle = [] then [] else ''<p class="subtitle">'' @ subtitle @ ''</p>'')
             (concat (map (\<lambda>ic. toc_entry html_format (fst ic) (fst (snd ic))) (enumerate 0 tcs)))
             (concat (map (\<lambda>ic. heading html_format (fst ic) (fst (snd ic)) @ snd (snd ic)
                @ block_end html_format) (enumerate 0 tcs))))\<close>
    by (simp add: generate_ebook_html_def t s c Let_def toc body py_str_def)
  then show ?thesis
    unfolding html_page_layout ebook_layout_def by simp
qed

subsection \<open>Each format shows what the contract asks\<close>

lemma sublistI: "ys = ps @ xs @ ss \<Longrightarrow> sublist xs ys"
  by simp

lemma sublist_chapter_label: "sublist t (chapter_label i t)"
  by (rule sublistI [where ps = "''Chapter '' @ show_nat (i + 1) @ '': ''" and ss = "[]"])
    (simp add: chapter_label_def)

lemma sublist_license_text: "sublist license_notice text_license"
  by (rule sublistI [where ps = "nl @ replicate 50 CHR ''='' @ nl"
        and ss = "nl @ ''You may edit, rebrand, and resell this content.'' @ nl
                  @ ''Generated by Nosyt Automation System'' @ nl"])
    (simp add: text_license_def license_notice_def)

lemma sublist_license_md: "sublist license_notice md_license"
  by (rule sublistI [where ps = "''---'' @ nl @ nl @ ''**PLR License**: ''"
        and ss = "'' You may edit, rebrand, and resell this content.'' @ nl @ nl
                  @ ''*Generated by Nosyt Automation System*'' @ nl"])
    (simp add: md_license_def license_notice_def)

lemma sublist_license_html: \<open>sublist license_notice (back_matter html_format)\<close>
  by (rule sublistI [where ps = \<open>nl @ ''    '' @ nl @ ''    <div class="footer">'' @ nl @ ''        <p>''\<close>
        and ss = "'' You may edit, rebrand, and resell this content.</p>'' @ nl
                  @ ''        <p>Generated by Nosyt Automation System</p>'' @ nl
                  @ ''    </div>'' @ nl @ ''</body>'' @ nl @ ''</html>'' @ nl @ ''        ''"])
    (simp add: html_format_def html_footer_def license_notice_def join_Cons2 join_single)

lemma shows_contract_text: "shows_contract text_format title subtitle chapters"
proof -
  have "sublist subtitle (front_matter text_format title subtitle)"
  proof (cases "subtitle = []")
    case True
    then show ?thesis by simp
  next
    case False
    then show ?thesis
      by (intro sublistI [where ps = "title @ nl @ replicate (length title) CHR ''='' @ nl @ nl"
            and ss = "nl @ nl @ ''TABLE OF CONTENTS'' @ nl @ ''-----------------'' @ nl"])
        (simp add: text_format_def)
  qed
  moreover have "sublist title (front_matter text_format title subtitle)"
    by (simp add: text_format_def)
  moreover have "sublist t (toc_entry text_format i t)" for i t
    by (intro sublistI [where ps = "''Chapter '' @ show_nat (i + 1) @ '': ''" and ss = nl])
      (simp add: text_format_def chapter_label_def)
  moreover have "sublist (chapter_label i t) (heading text_format i t)" for i t
    by (simp add: text_format_def)
  ultimately show ?thesis
    by (simp add: shows_contract_def list_all_iff)
      (simp add: text_format_def sublist_license_text)
qed

lemma shows_contract_md: "shows_contract md_format title subtitle chapters"
proof -
  have "sublist subtitle (front_matter md_format title subtitle)"
  proof (cases "subtitle = []")
    case True
    then show ?thesis by simp
  next
    case False
    then show ?thesis
      by (intro sublistI [where ps = "''# '' @ title @ nl @ nl @ ''*''"
            and ss = "''*'' @ nl @ nl @ ''## Table of Contents'' @ nl @ nl"])
        (simp add: md_format_def)
  qed
  moreover have "sublist title (front_matter md_format title subtitle)"
    by (intro sublistI [where ps = "''# ''"
          and ss = "nl @ nl @ (if subtitle = [] then [] else ''*'' @ subtitle @ ''*'' @ nl @ nl)
                    @ ''## Table of Contents'' @ nl @ nl"])
      (simp add: md_format_def)
  moreover have "sublist t (toc_entry md_format i t)" for i t
    by (intro sublistI [where ps = "show_nat (i + 1) @ ''. ''" and ss = nl])
      (simp add: md_format_def)
  moreover have "sublist (chapter_label i t) (heading md_format i t)" for i t
    by (intro sublistI [where ps = "''## ''" and ss = "nl @ nl"])
      (simp add: md_format_def)
  ultimately show ?thesis
    by (simp add: shows_contract_def list_all_iff)
      (simp add: md_format_def sublist_license_md)
qed

lemma sublist_join: "x \<in> set xs \<Longrightarrow> sublist x (join sep xs)"
proof (induction xs)
  case Nil
  then show ?case by simp
next
  case (Cons y ys)
  show ?case
  proof (cases ys)
    case Nil
    with Cons.prems show ?thesis
      by (simp add: join_single)
  next
    case (Cons z zs)
    show ?thesis
    proof (cases "x = y")
      case True
      then show ?thesis
        unfolding Cons join_Cons2 by simp
    next
      case False
      with Cons.prems Cons.IH have "sublist x (join sep ys)"
        by simp
      then obtain ps ss where "join sep ys = ps @ x @ ss"
        by (auto simp: sublist_def)
      then have "join sep (y # ys) = (y @ sep @ ps) @ x @ ss"
        unfolding Cons join_Cons2 by simp
      then show ?thesis
        by (rule sublistI)
    qed
  qed
qed

lemma sublist_trans: "sublist xs ys \<Longrightarrow> sublist ys zs \<Longrightarrow> sublist xs zs"
  by (rule sublist_order.order_trans)

lemma shows_contract_html: "shows_contract html_format title subtitle chapters"
proof -
  have \<open>''    '' @ (if subtitle = [] then [] else ''<p class="subtitle">'' @ subtitle @ ''</p>'')
          \<in> set (html_front_lines title subtitle)\<close>
    by (simp add: html_front_lines_def)
  then have \<open>sublist (''    '' @ (if subtitle = [] then [] else ''<p class="subtitle">'' @ subtitle @ ''</p>''))
          (front_matter html_format title subtitle)\<close>
    unfolding html_format_def ebook_format.simps by (rule sublist_join)
  moreover have \<open>sublist subtitle
      (''    '' @ (if subtitle = [] then [] else ''<p class="subtitle">'' @ subtitle @ ''</p>''))\<close>
  proof (cases "subtitle = []")
    case True
    then show ?thesis by simp
  next
    case False
    then show ?thesis
      by (intro sublistI [where ps = \<open>''    <p class="subtitle">''\<close> and ss = "''</p>''"]) simp
  qed
  ultimately have "sublist subtitle (front_matter html_format title subtitle)"
    by (rule sublist_trans [rotated])
  moreover have "''    <h1>'' @ title @ ''</h1>'' \<in> set (html_front_lines title subtitle)"
    by (simp add: html_front_lines_def)
  then have "sublist (''    <h1>'' @ title @ ''</h1>'') (front_matter html_format title subtitle)"
    unfolding html_format_def ebook_format.simps by (rule sublist_join)
  then have "sublist title (front_matter html_format title subtitle)"
    by (rule sublist_trans [rotated]) (rule sublist_appendI)
  moreover have "sublist t (toc_entry html_format i t)" for i t
    by (intro sublistI [where ps = "''<li>Chapter '' @ show_nat (i + 1) @ '': ''" and ss = "''</li>''"])
      (simp add: html_format_def chapter_label_def)
  moreover have "sublist (chapter_label i t) (heading html_format i t)" for i t
    by (simp only: html_format_def ebook_format.select_convs sublist_appendI)
  ultimately show ?thesis
    by (simp add: shows_contract_def list_all_iff sublist_license_html)
qed

text \<open>
  Claim C7. For every ebook document whose title and subtitle are strings and whose
  chapters are \<open>N\<close> dicts with a string title and a string content, each of the three
  renderers returns (it does not raise) the layout of its format: the front matter with
  the title and the subtitle when there is one, a table of contents with one entry per
  chapter in the document's order, then one block per chapter in the same order, made of a
  heading with the chapter's number and title, the content verbatim, and a fixed end, and
  last the back matter with the license notice. Nothing else depends on the chapters, so
  the output has exactly \<open>N\<close> headings and each content exactly once.
\<close>

theorem ebook_rendering_complete:
  assumes "ebook_view d = Some (title, subtitle, chapters)"
  shows "generate_ebook_html d = Inr (ebook_layout html_format title subtitle chapters)
       \<and> generate_ebook_text d = Inr (ebook_layout text_format title subtitle chapters)
       \<and> generate_ebook_markdown d = Inr (ebook_layout md_format title subtitle chapters)
       \<and> shows_contract html_format title subtitle chapters
       \<and> shows_contract text_format title subtitle chapters
       \<and> shows_contract md_format title subtitle chapters"
  using html_layout [OF assms] text_layout [OF assms] md_layout [OF assms]
    shows_contract_html shows_contract_text shows_contract_md
  by simp

theorem ebook_rendering_complete_witness:
  "ebook_view ebook_AB = Some (''T'', [], [(''A'', ''x''), (''B'', ''y'')])
   \<and> generate_ebook_html ebook_AB
       = Inr (ebook_layout html_format ''T'' [] [(''A'', ''x''), (''B'', ''y'')])
   \<and> generate_ebook_text ebook_AB
       = Inr (ebook_layout text_format ''T'' [] [(''A'', ''x''), (''B'', ''y'')])
   \<and> generate_ebook_markdown ebook_AB
       = Inr (ebook_layout md_format ''T'' [] [(''A'', ''x''), (''B'', ''y'')])
   \<and> shows_contract text_format ''T'' [] [(''A'', ''x''), (''B'', ''y'')]"
proof -
  have v: "ebook_view ebook_AB = Some (''T'', [], [(''A'', ''x''), (''B'', ''y'')])"
    by (simp add: ebook_view_def ebook_AB_def dget_def chapter_fields_def)
  from ebook_rendering_complete [OF v] v show ?thesis
    by simp
qed

section \<open>The upload loop, verified\<close>

subsection \<open>The fate of a file does not depend on the state\<close>

lemma fst_create_product:
  "fst (create_product c product_data outcome L) = fst (create_product c' product_data outcome L')"
  by (simp add: create_product_def split: json.splits sum.splits)

lemma create_product_Inr_dict:
  "fst (create_product c product_data outcome L) = Inr r \<Longrightarrow> \<exists>d. product_data = JObj d"
  by (simp add: create_product_def split: json.splits)

lemma create_product_Some_dict:
  "fst (create_product c product_data outcome L) = Inr (Some r) \<Longrightarrow> \<exists>kvs. r = JObj kvs"
  by (auto simp: create_product_def split: json.splits sum.splits if_splits)

lemma create_product_raise_logs:
  "fst (create_product c product_data outcome L) = Inl e \<Longrightarrow>
   snd (create_product c product_data outcome L) = L"
  by (auto simp: create_product_def split: json.splits sum.splits if_splits)

lemma fst_email_template_files:
  "fst (email_template_files dir it F) = fst (email_template_files dir it F')"
  by (simp add: email_template_files_def Let_def split: sum.splits)

lemma fst_email_loop: "fst (email_loop dir its F) = fst (email_loop dir its F')"
proof (induction its arbitrary: F F')
  case Nil
  then show ?case by simp
next
  case (Cons it its)
  obtain r1 F1 where a: "email_template_files dir it F = (r1, F1)"
    by (cases "email_template_files dir it F")
  obtain r2 F2 where b: "email_template_files dir it F' = (r2, F2)"
    by (cases "email_template_files dir it F'")
  from fst_email_template_files [of dir it F F'] a b have "r1 = r2" by simp
  with a b Cons.IH [of F1 F2] show ?case
    by (auto split: option.splits)
qed

lemma fst_create_digital_files:
  "fst (create_digital_files disk d pid F) = fst (create_digital_files disk d pid F')"
  by (simp add: create_digital_files_def create_ebook_files_def create_notion_template_files_def
      create_planner_files_def create_email_template_files_def Let_def
      fst_email_loop [of _ _ F F']
      split: option.splits sum.splits)


lemma processing_error_fields [simp]:
  "success (processing_error f e st) = success st"
  "failed (processing_error f e st) = failed st + 1"
  "products (processing_error f e st) = products st"
  "action_logs (processing_error f e st) = action_logs st"
  "out_files (processing_error f e st) = out_files st"
  "console (processing_error f e st) = console st @ [ErrorProcessing (file_path f) e]"
  by (simp_all add: processing_error_def)

lemma upload_one_unreadable:
  assumes "parsed f = Inl e"
  shows "upload_one c st f = processing_error f e st"
  using assms by (simp add: upload_one_def)

lemma upload_one_create_raises:
  assumes "parsed f = Inr product_data"
    and "fst (create_product clock0 product_data (post_outcome f) no_logs) = Inl e"
  shows "upload_one c st f = processing_error f e st"
proof -
  from assms(2) have v: "fst (create_product c product_data (post_outcome f) (action_logs st)) = Inl e"
    using fst_create_product by metis
  then have "snd (create_product c product_data (post_outcome f) (action_logs st)) = action_logs st"
    by (rule create_product_raise_logs)
  with v have "create_product c product_data (post_outcome f) (action_logs st) = (Inl e, action_logs st)"
    by (metis prod.collapse)
  then show ?thesis
    using assms(1) by (simp add: upload_one_def)
qed

lemma upload_one_no_verdict:
  assumes "file_verdict f = None"
  shows "\<exists>e. upload_one c st f = processing_error f e st"
proof (cases "parsed f")
  case (Inl e)
  then show ?thesis
    using upload_one_unreadable by blast
next
  case (Inr product_data)
  with assms obtain e where
    "fst (create_product clock0 product_data (post_outcome f) no_logs) = Inl e"
    by (auto simp: file_verdict_def split: sum.splits)
  with Inr show ?thesis
    using upload_one_create_raises by blast
qed

lemma upload_one_failed:
  assumes "file_verdict f = Some False"
  shows "success (upload_one c st f) = success st
       \<and> failed (upload_one c st f) = failed st + 1
       \<and> (\<exists>title. products (upload_one c st f) = products st @ [failed_entry title])"
proof -
  from assms obtain product_data result where
    p: "parsed f = Inr product_data"
    and v: "fst (create_product clock0 product_data (post_outcome f) no_logs) = Inr result"
    and r: "\<not> result_truthy result"
    by (auto simp: file_verdict_def split: sum.splits)
  from v obtain d where d: "product_data = JObj d"
    using create_product_Inr_dict by blast
  from v have "fst (create_product c product_data (post_outcome f) (action_logs st)) = Inr result"
    using fst_create_product by metis
  then obtain L where
    "create_product c product_data (post_outcome f) (action_logs st) = (Inr result, L)"
    by (metis prod.collapse)
  then show ?thesis
    using p r d
    apply (simp add: upload_one_def record_failure_def py_get_def Let_def)
    apply blast
    done
qed

lemma upload_one_created:
  assumes "file_verdict f = Some True"
  shows "success (upload_one c st f) = success st + 1
       \<and> failed (upload_one c st f) = failed st + (if rendering_raises f then 1 else 0)
       \<and> (\<exists>title whop_id. products (upload_one c st f) = products st @ [success_entry title whop_id])"
proof -
  from assms obtain product_data result where
    p: "parsed f = Inr product_data"
    and v: "fst (create_product clock0 product_data (post_outcome f) no_logs) = Inr result"
    and r: "result_truthy result"
    by (auto simp: file_verdict_def split: sum.splits)
  from v obtain d where d: "product_data = JObj d"
    using create_product_Inr_dict by blast
  from r obtain res where res: "result = Some res" and tr: "truthy res"
    by (auto simp: result_truthy_def split: option.splits)
  from v res obtain kvs where kvs: "res = JObj kvs"
    using create_product_Some_dict by blast
  from v have "fst (create_product c product_data (post_outcome f) (action_logs st)) = Inr result"
    using fst_create_product by metis
  then obtain L where
    cp: "create_product c product_data (post_outcome f) (action_logs st) = (Inr result, L)"
    by (metis prod.collapse)
  have rr: "rendering_raises f =
      (fst (create_digital_files (disk_error f) d (dget kvs ''id'' JNull) no_files) \<noteq> None)"
    using p d v res kvs tr by (simp add: rendering_raises_def)
  obtain x F' where cdf: "create_digital_files (disk_error f) d (dget kvs ''id'' JNull) (out_files st) = (x, F')"
    by (cases "create_digital_files (disk_error f) d (dget kvs ''id'' JNull) (out_files st)")
  then have "fst (create_digital_files (disk_error f) d (dget kvs ''id'' JNull) no_files) = x"
    using fst_create_digital_files [of "disk_error f" d "dget kvs ''id'' JNull" no_files "out_files st"]
    by simp
  with rr have rx: "rendering_raises f = (x \<noteq> None)"
    by simp
  show ?thesis
    using p r d res kvs cp cdf rx
    apply (cases x)
     apply (simp_all add: upload_one_def record_success_def py_get_def Let_def)
     apply blast+
    done
qed

subsection \<open>The tallies\<close>

lemma rendering_raises_created:
  assumes "rendering_raises f"
  shows "file_verdict f = Some True"
proof -
  from assms obtain d where p: "parsed f = Inr (JObj d)"
    by (cases "parsed f") (auto simp: rendering_raises_def split: json.splits)
  with assms obtain r where
    v: "fst (create_product clock0 (JObj d) (post_outcome f) no_logs) = Inr (Some (JObj r))"
    and r: "r \<noteq> []"
    by (cases "fst (create_product clock0 (JObj d) (post_outcome f) no_logs)")
      (auto simp: rendering_raises_def split: option.splits json.splits)
  from p v r show ?thesis
    by (simp add: file_verdict_def result_truthy_def)
qed

lemma upload_one_step:
  "success (upload_one c st f) = success st + (if file_verdict f = Some True then 1 else 0)
   \<and> failed (upload_one c st f)
       = failed st + (if file_verdict f = Some True then 0 else 1)
         + (if rendering_raises f then 1 else 0)
   \<and> int (length (products (upload_one c st f)))
       = int (length (products st)) + (if file_verdict f = None then 0 else 1)"
proof (cases "file_verdict f")
  case None
  moreover from None have "\<not> rendering_raises f"
    using rendering_raises_created by fastforce
  moreover from upload_one_no_verdict [OF None] obtain e where
    "upload_one c st f = processing_error f e st"
    by blast
  ultimately show ?thesis by simp
next
  case (Some created)
  show ?thesis
  proof (cases created)
    case True
    with Some upload_one_created [of f c st] show ?thesis
      by auto
  next
    case False
    with Some have v: "file_verdict f = Some False" by simp
    then have "\<not> rendering_raises f"
      using rendering_raises_created by fastforce
    with v upload_one_failed [OF v, of c st] show ?thesis
      by auto
  qed
qed

lemma count_files_Nil [simp]: "count_files P [] = 0"
  by (simp add: count_files_def)

lemma count_files_Cons [simp]:
  "count_files P (f # fs) = (if P f then 1 else 0) + count_files P fs"
  by (simp add: count_files_def)

lemma count_files_append [simp]:
  "count_files P (fs @ gs) = count_files P fs + count_files P gs"
  by (simp add: count_files_def)

lemma count_files_none: "(\<forall>f \<in> set fs. \<not> P f) \<Longrightarrow> count_files P fs = 0"
  by (induction fs) simp_all

lemma count_files_partition:
  "int (length fs) = count_files (\<lambda>f. file_verdict f = None) fs
     + count_files (\<lambda>f. file_verdict f = Some False) fs
     + count_files (\<lambda>f. file_verdict f = Some True) fs"
proof (induction fs)
  case Nil
  then show ?case by simp
next
  case (Cons f fs)
  then show ?case
    by (cases "file_verdict f") auto
qed

lemma upload_accounting:
  "success (foldl (upload_one c) st fs)
     = success st + count_files (\<lambda>f. file_verdict f = Some True) fs
   \<and> failed (foldl (upload_one c) st fs)
       = failed st + count_files (\<lambda>f. file_verdict f \<noteq> Some True) fs
         + count_files rendering_raises fs
   \<and> int (length (products (foldl (upload_one c) st fs)))
       = int (length (products st)) + count_files (\<lambda>f. file_verdict f \<noteq> None) fs"
proof (induction fs arbitrary: st)
  case Nil
  then show ?case by simp
next
  case (Cons f fs)
  from Cons.IH [of "upload_one c st f"] upload_one_step [of c st f] show ?case
    by simp
qed

lemma upload_directory_fields:
  "success (upload_products_from_directory c dir (Some fs) L F)
     = success (foldl (upload_one c) ((initial_results L F)\<lparr>console := [FoundProducts (length fs)]\<rparr>) fs)"
  "failed (upload_products_from_directory c dir (Some fs) L F)
     = failed (foldl (upload_one c) ((initial_results L F)\<lparr>console := [FoundProducts (length fs)]\<rparr>) fs)"
  "products (upload_products_from_directory c dir (Some fs) L F)
     = products (foldl (upload_one c) ((initial_results L F)\<lparr>console := [FoundProducts (length fs)]\<rparr>) fs)"
  by (simp_all add: upload_products_from_directory_def Let_def)

lemma upload_directory_accounting:
  "success (upload_products_from_directory c dir (Some fs) L F)
     = count_files (\<lambda>f. file_verdict f = Some True) fs
   \<and> failed (upload_products_from_directory c dir (Some fs) L F)
       = count_files (\<lambda>f. file_verdict f \<noteq> Some True) fs + count_files rendering_raises fs
   \<and> int (length (products (upload_products_from_directory c dir (Some fs) L F)))
       = count_files (\<lambda>f. file_verdict f \<noteq> None) fs"
  unfolding upload_directory_fields
  using upload_accounting
    [of c "(initial_results L F)\<lparr>console := [FoundProducts (length fs)]\<rparr>" fs]
  by (simp add: initial_results_def)

lemma count_not_created:
  "count_files (\<lambda>f. file_verdict f \<noteq> Some True) fs
     = count_files (\<lambda>f. file_verdict f = None) fs
       + count_files (\<lambda>f. file_verdict f = Some False) fs"
proof (induction fs)
  case Nil
  then show ?case by simp
next
  case (Cons f fs)
  then show ?case
    by (cases "file_verdict f") auto
qed

lemma count_with_verdict:
  "count_files (\<lambda>f. file_verdict f \<noteq> None) fs
     = int (length fs) - count_files (\<lambda>f. file_verdict f = None) fs"
proof (induction fs)
  case Nil
  then show ?case by simp
next
  case (Cons f fs)
  then show ?case
    by (cases "file_verdict f") auto
qed

subsection \<open>The example scenarios\<close>

lemma format_ebook_AB: "\<exists>w. format_for_whop_api (JObj ebook_AB) = Inr (JObj w)"
  by (rule format_typed [THEN exE, of ebook_AB "''ebook''" 15 "[JObj [(''title'', JStr ''A''), (''content'', JStr ''x'')],
                JObj [(''title'', JStr ''B''), (''content'', JStr ''y'')]]"])
    (auto simp: ebook_AB_def dget_def)

lemma verdict_broken: "file_verdict broken_file = None"
  by (simp add: file_verdict_def broken_file_def)

lemma create_good:
  "fst (create_product c (JObj ebook_AB) (Inr (created pid)) L) = Inr (Some (JObj [(''id'', JStr pid)]))"
  using format_ebook_AB by (auto simp: create_product_def created_def)

lemma create_rejected:
  "fst (create_product c (JObj ebook_AB) (Inr server_error) L) = Inr None"
  using format_ebook_AB by (auto simp: create_product_def server_error_def)

lemma verdict_good: "file_verdict good_file = Some True"
  by (simp add: file_verdict_def good_file_def create_good result_truthy_def)

lemma verdict_rejected: "file_verdict rejected_file = Some False"
  by (simp add: file_verdict_def rejected_file_def create_rejected result_truthy_def)

lemma view_AB: "ebook_view ebook_AB = Some (''T'', [], [(''A'', ''x''), (''B'', ''y'')])"
  by (simp add: ebook_view_def ebook_AB_def dget_def chapter_fields_def)

lemma render_good: "fst (create_digital_files None ebook_AB pid F) = None"
proof -
  have "dget ebook_AB ''type'' JNull = JStr ''ebook''"
    by (simp add: ebook_AB_def dget_def)
  then show ?thesis
    by (simp add: create_digital_files_def create_ebook_files_def Let_def
        html_layout [OF view_AB] text_layout [OF view_AB] md_layout [OF view_AB])
qed

lemma not_raises_good: "\<not> rendering_raises good_file"
  by (simp add: rendering_raises_def good_file_def create_good render_good)

lemma not_raises_rejected: "\<not> rendering_raises rejected_file"
  by (simp add: rendering_raises_def rejected_file_def create_rejected)

lemma not_raises_broken: "\<not> rendering_raises broken_file"
  by (simp add: rendering_raises_def broken_file_def)

lemma raises_orphan: "rendering_raises orphan_file"
proof -
  let ?d = "[(''type'', JStr ''ebook''), (''title'', JStr ''T''),
             (''chapters'', JList [JObj [(''title'', JStr ''A'')]]),
             (''suggested_price'', JInt 15)]"
  have "\<exists>w. format_for_whop_api (JObj ?d) = Inr (JObj w)"
    by (rule format_typed [THEN exE, of ?d "''ebook''" 15 "[JObj [(''title'', JStr ''A'')]]"])
      (auto simp: dget_def)
  then have c: "fst (create_product clock0 (JObj ?d) (Inr (created ''p_2'')) no_logs)
      = Inr (Some (JObj [(''id'', JStr ''p_2'')]))"
    by (auto simp: create_product_def created_def)
  have "generate_ebook_html ?d = Inl (Raised KeyError (repr_str ''content''))"
    by (simp add: generate_ebook_html_def dget_def Let_def html_toc_item_def html_chapter_def)
  then have "fst (create_digital_files None ?d (JStr ''p_2'') no_files) \<noteq> None"
    by (simp add: create_digital_files_def create_ebook_files_def dget_def)
  with c show ?thesis
    by (simp add: rendering_raises_def orphan_file_def dget_def)
qed

subsection \<open>The claims about the batch\<close>

text \<open>
  The claim C2 as stated fails on a directory that holds one unreadable file: the file is
  counted as failed and gets no entry in the result list, so the list has no entry for one
  document.
\<close>

theorem unreadable_file_counterexample:
  "success (upload_products_from_directory clock0 ''generated_products'' (Some [broken_file])
      no_logs no_files) = 0
   \<and> failed (upload_products_from_directory clock0 ''generated_products'' (Some [broken_file])
      no_logs no_files) = 1
   \<and> length (products (upload_products_from_directory clock0 ''generated_products''
      (Some [broken_file]) no_logs no_files)) \<noteq> length [broken_file]"
proof -
  have "upload_one clock0 st broken_file
      = processing_error broken_file (Raised ValueError ''Expecting value'') st" for st
    by (rule upload_one_unreadable) (simp add: broken_file_def)
  then show ?thesis
    by (simp add: upload_products_from_directory_def Let_def initial_results_def)
qed

text \<open>
  Claim C2, as amended. For a products directory of \<open>K\<close> files in which no rendering
  raises, of which \<open>U\<close> get no verdict (the file is unreadable or malformed, or
  \<^verbatim>\<open>create_product\<close> raises on its document) and \<open>F\<close> fail listing creation,
  \<^verbatim>\<open>upload_products_from_directory\<close> returns \<open>success = K - U - F\<close> and
  \<open>failed = F + U\<close>, and the result list has \<open>K - U\<close> entries: one per document that
  got a verdict.
\<close>

theorem upload_tallies:
  assumes "\<forall>f \<in> set fs. \<not> rendering_raises f"
  shows "success (upload_products_from_directory c dir (Some fs) L F)
           = int (length fs) - count_files (\<lambda>f. file_verdict f = None) fs
               - count_files (\<lambda>f. file_verdict f = Some False) fs
       \<and> failed (upload_products_from_directory c dir (Some fs) L F)
           = count_files (\<lambda>f. file_verdict f = Some False) fs
               + count_files (\<lambda>f. file_verdict f = None) fs
       \<and> int (length (products (upload_products_from_directory c dir (Some fs) L F)))
           = int (length fs) - count_files (\<lambda>f. file_verdict f = None) fs"
  using upload_directory_accounting [of c dir fs L F] count_files_none [OF assms]
    count_not_created [of fs] count_files_partition [of fs] count_with_verdict [of fs]
  by simp

theorem upload_tallies_witness:
  "\<not> rendering_raises good_file \<and> \<not> rendering_raises rejected_file
   \<and> \<not> rendering_raises broken_file
   \<and> success (upload_products_from_directory clock0 ''generated_products''
        (Some [good_file, rejected_file, broken_file]) no_logs no_files) = 1
   \<and> failed (upload_products_from_directory clock0 ''generated_products''
        (Some [good_file, rejected_file, broken_file]) no_logs no_files) = 2
   \<and> length (products (upload_products_from_directory clock0 ''generated_products''
        (Some [good_file, rejected_file, broken_file]) no_logs no_files)) = 2"
proof -
  have h: "\<forall>f \<in> set [good_file, rejected_file, broken_file]. \<not> rendering_raises f"
    by (simp add: not_raises_good not_raises_rejected not_raises_broken)
  from upload_tallies [OF h, of clock0 "''generated_products''" no_logs no_files] show ?thesis
    by (simp add: verdict_good verdict_rejected verdict_broken
        not_raises_good not_raises_rejected not_raises_broken)
qed

text \<open>
  Claim C8. A missing and an empty products directory give \<open>success = 0\<close>,
  \<open>failed = 0\<close> and no entries, and the function returns. A file that gets no verdict (it
  is unreadable, its content is malformed, or \<^verbatim>\<open>create_product\<close> raises on its document)
  is handled by the \<^verbatim>\<open>except\<close> of the loop body: the error is printed, \<open>failed\<close> is raised
  by one, and nothing else of the results changes. The batch goes on: for such a file
  anywhere in the directory, the files before and after it are tallied as they are without
  it.
\<close>

theorem unreadable_file_skipped:
  assumes "file_verdict f = None"
  shows "success (upload_products_from_directory c dir None L F) = 0
       \<and> failed (upload_products_from_directory c dir None L F) = 0
       \<and> products (upload_products_from_directory c dir None L F) = []
       \<and> success (upload_products_from_directory c dir (Some []) L F) = 0
       \<and> failed (upload_products_from_directory c dir (Some []) L F) = 0
       \<and> products (upload_products_from_directory c dir (Some []) L F) = []
       \<and> (\<exists>e. upload_one c st f = processing_error f e st
              \<and> console (upload_one c st f) = console st @ [ErrorProcessing (file_path f) e])
       \<and> failed (upload_one c st f) = failed st + 1
       \<and> success (upload_one c st f) = success st
       \<and> products (upload_one c st f) = products st
       \<and> success (upload_products_from_directory c dir (Some (before @ f # after)) L F)
           = success (upload_products_from_directory c dir (Some (before @ after)) L F)
       \<and> failed (upload_products_from_directory c dir (Some (before @ f # after)) L F)
           = failed (upload_products_from_directory c dir (Some (before @ after)) L F) + 1
       \<and> length (products (upload_products_from_directory c dir (Some (before @ f # after)) L F))
           = length (products (upload_products_from_directory c dir (Some (before @ after)) L F))"
proof -
  from upload_one_no_verdict [OF assms] obtain e where
    e: "upload_one c st f = processing_error f e st"
    by blast
  have nr: "\<not> rendering_raises f"
    using assms rendering_raises_created by fastforce
  have "int (length (products (upload_products_from_directory c dir (Some (before @ f # after)) L F)))
      = int (length (products (upload_products_from_directory c dir (Some (before @ after)) L F)))"
    using upload_directory_accounting [of c dir "before @ f # after" L F]
      upload_directory_accounting [of c dir "before @ after" L F] assms
    by simp
  then have "length (products (upload_products_from_directory c dir (Some (before @ f # after)) L F))
      = length (products (upload_products_from_directory c dir (Some (before @ after)) L F))"
    by simp
  moreover have "success (upload_products_from_directory c dir (Some (before @ f # after)) L F)
           = success (upload_products_from_directory c dir (Some (before @ after)) L F)"
    "failed (upload_products_from_directory c dir (Some (before @ f # after)) L F)
           = failed (upload_products_from_directory c dir (Some (before @ after)) L F) + 1"
    using upload_directory_accounting [of c dir "before @ f # after" L F]
      upload_directory_accounting [of c dir "before @ after" L F] assms nr
    by simp_all
  moreover have "success (upload_products_from_directory c dir None L F) = 0
       \<and> failed (upload_products_from_directory c dir None L F) = 0
       \<and> products (upload_products_from_directory c dir None L F) = []
       \<and> success (upload_products_from_directory c dir (Some []) L F) = 0
       \<and> failed (upload_products_from_directory c dir (Some []) L F) = 0
       \<and> products (upload_products_from_directory c dir (Some []) L F) = []"
    by (simp add: upload_products_from_directory_def initial_results_def)
  ultimately show ?thesis
    using e by simp
qed

theorem unreadable_file_skipped_witness:
  "file_verdict broken_file = None
   \<and> upload_one clock0 (initial_results no_logs no_files) broken_file
       = processing_error broken_file (Raised ValueError ''Expecting value'')
           (initial_results no_logs no_files)
   \<and> success (upload_products_from_directory clock0 ''generated_products''
        (Some ([good_file] @ broken_file # [rejected_file])) no_logs no_files)
       = success (upload_products_from_directory clock0 ''generated_products''
           (Some ([good_file] @ [rejected_file])) no_logs no_files)
   \<and> failed (upload_products_from_directory clock0 ''generated_products''
        (Some ([good_file] @ broken_file # [rejected_file])) no_logs no_files)
       = failed (upload_products_from_directory clock0 ''generated_products''
           (Some ([good_file] @ [rejected_file])) no_logs no_files) + 1
   \<and> success (upload_products_from_directory clock0 ''generated_products'' None
        no_logs no_files) = 0"
proof -
  have "upload_one clock0 (initial_results no_logs no_files) broken_file
       = processing_error broken_file (Raised ValueError ''Expecting value'')
           (initial_results no_logs no_files)"
    by (rule upload_one_unreadable) (simp add: broken_file_def)
  with unreadable_file_skipped [OF verdict_broken, of clock0 "''generated_products''" no_logs no_files
      "initial_results no_logs no_files" "[good_file]" "[rejected_file]"] verdict_broken
  show ?thesis
    by simp
qed

text \<open>
  Claim C10. A document whose listing is created and whose rendering then raises is
  counted once in \<open>success\<close>, with its success entry appended to the result list, and
  once in \<open>failed\<close>; nothing is taken back. Such inputs exist: for the directory that
  holds the one ebook whose chapter has no content, \<open>success + failed = 2\<close> for one
  document.
\<close>

theorem rendering_failure_counted_twice:
  assumes "rendering_raises f"
  shows "success (upload_one c st f) = success st + 1
       \<and> failed (upload_one c st f) = failed st + 1
       \<and> (\<exists>title whop_id. products (upload_one c st f) = products st @ [success_entry title whop_id])
       \<and> rendering_raises orphan_file
       \<and> success (upload_products_from_directory clock0 ''generated_products''
            (Some [orphan_file]) no_logs no_files)
          + failed (upload_products_from_directory clock0 ''generated_products''
              (Some [orphan_file]) no_logs no_files)
          > int (length [orphan_file])"
proof -
  from rendering_raises_created [OF assms] upload_one_created [of f c st] assms
  have "success (upload_one c st f) = success st + 1
       \<and> failed (upload_one c st f) = failed st + 1
       \<and> (\<exists>title whop_id. products (upload_one c st f) = products st @ [success_entry title whop_id])"
    by simp
  moreover have "success (upload_products_from_directory clock0 ''generated_products''
            (Some [orphan_file]) no_logs no_files)
          + failed (upload_products_from_directory clock0 ''generated_products''
              (Some [orphan_file]) no_logs no_files)
          > int (length [orphan_file])"
    using upload_directory_accounting [of clock0 "''generated_products''" "[orphan_file]" no_logs no_files]
      raises_orphan rendering_raises_created [OF raises_orphan]
    by simp
  ultimately show ?thesis
    using raises_orphan by simp
qed

theorem rendering_failure_counted_twice_witness:
  "rendering_raises orphan_file
   \<and> success (upload_one clock0 (initial_results no_logs no_files) orphan_file) = 1
   \<and> failed (upload_one clock0 (initial_results no_logs no_files) orphan_file) = 1
   \<and> length (products (upload_one clock0 (initial_results no_logs no_files) orphan_file)) = 1"
proof -
  from rendering_failure_counted_twice [OF raises_orphan, of clock0 "initial_results no_logs no_files"]
  obtain title whop_id where
    "success (upload_one clock0 (initial_results no_logs no_files) orphan_file) = 1"
    "failed (upload_one clock0 (initial_results no_logs no_files) orphan_file) = 1"
    "products (upload_one clock0 (initial_results no_logs no_files) orphan_file)
       = products (initial_results no_logs no_files) @ [success_entry title whop_id]"
    by (auto simp: initial_results_def)
  then show ?thesis
    using raises_orphan by (simp add: initial_results_def)
qed

section \<open>The daily cycle, verified\<close>



text \<open>
  Were the generation stage to raise, the cycle would log the failure and call no other
  stage.
\<close>

lemma generation_raise_skips_rest:
  "run_daily_automation default_config generation_raises
     = [LogInfo StartingCycle, Called Generate,
        LogError (CycleFailed (Raised ValueError ''generation failed''))]"
  by (simp add: run_daily_automation_def default_config_def generation_raises_def)

subsection \<open>The generation stage returns\<close>

lemma iterations_daily_targets:
  "iterations daily_targets =
     [(''ebooks'', 0), (''ebooks'', 1), (''templates'', 0), (''templates'', 1),
      (''templates'', 2), (''planners'', 0), (''email_templates'', 0)]"
  by (simp add: iterations_def daily_targets_def upt_rec)

lemma generate_step_count:
  "fst acc \<le> fst (generate_step gen acc it) \<and> fst (generate_step gen acc it) \<le> fst acc + 1"
  by (auto simp: generate_step_def Let_def split: sum.splits json.splits)

lemma foldl_generate_count:
  "fst acc \<le> fst (foldl (generate_step gen) acc its)
   \<and> fst (foldl (generate_step gen) acc its) \<le> fst acc + int (length its)"
proof (induction its arbitrary: acc)
  case Nil
  then show ?case by simp
next
  case (Cons it its)
  from Cons.IH [of "generate_step gen acc it"] generate_step_count [of acc gen it]
  show ?case by simp
qed

text \<open>
  Whatever the Content Generator does, raising included, the generation stage returns a
  count between 0 and 7; when every call raises, the count is 0 and seven failures are
  logged.
\<close>

lemma generate_daily_products_bounds:
  "0 \<le> fst (generate_daily_products gen) \<and> fst (generate_daily_products gen) \<le> 7"
  using foldl_generate_count [of "(0, [])" gen "iterations daily_targets"]
  by (simp add: generate_daily_products_def iterations_daily_targets)

lemma generator_down_step:
  "generate_step generator_down (0, records) (product_type, i) =
     (0, records @ [FailedToGenerate product_type
        (if product_type \<in> {''ebooks'', ''templates'', ''planners'', ''email_templates''}
         then Raised RequestException ''connection refused''
         else Raised NameError ''local variable result referenced before assignment'')])"
  by (simp add: generate_step_def generator_down_def Let_def gen_request_for_def
      profitable_niches_def bind_exn_def)

lemma generate_daily_products_down:
  "generate_daily_products generator_down =
     (0, map (\<lambda>it. FailedToGenerate (fst it) (Raised RequestException ''connection refused''))
           (iterations daily_targets))"
  by (simp add: generate_daily_products_def iterations_daily_targets generator_down_step)

subsection \<open>An exception that leaves a stage\<close>




end
